theory Spec2Isabelle
  imports Main "HOL-Library.Sublist" "HOL-Library.AList"
begin

section \<open>Data model of \<open>file_linking.py\<close>\<close>

text \<open>
  Python \<open>bytes\<close> are lists of 8-bit characters.  A Python \<open>str\<close> is represented by its
  UTF-8 byte sequence, so that \<open>s.encode('utf-8')\<close> is the representation itself and
  \<open>b.decode('utf-8', errors='ignore')\<close> keeps exactly the well-formed sequences of \<open>b\<close>.
\<close>

type_synonym str = string
type_synonym bytes = string

datatype error = ValueError | IndexError | BinasciiError | InvalidToken

datatype EncodingMethod =
  NONE | BASE64 | BASE64_MULTILINE | BASE64_URL_SAFE | ENCRYPTED_FERNET | ZIP_PASSWORD | ZIP_ENCRYPTED

record FileGenerationPlan =
  file_type :: str
  size_bytes :: int
  language :: str
  filename :: str

record FileReference =
  source_file :: str
  target_file :: str
  reference_type :: str
  context_str :: str

record EncodedFile =
  original_plan :: FileGenerationPlan
  encoded_content :: bytes
  encoding_method :: EncodingMethod
  password :: "str option"
  key :: "str option"
  salt :: "str option"

section \<open>The random sources\<close>

text \<open>
  \<open>random\<close>, \<open>secrets\<close>, \<open>os.urandom\<close> and Faker are one explicit source: a tape of
  numbers and a tape of Faker strings, read at a position that every draw advances.
  Theorems quantify over every source, so every outcome of the program is covered.
\<close>

record rng =
  tape :: "nat \<Rightarrow> nat"
  faker :: "nat \<Rightarrow> str"
  pos :: nat

definition draw :: "rng \<Rightarrow> nat \<times> rng" where
  "draw g = (tape g (pos g), g\<lparr>pos := Suc (pos g)\<rparr>)"

definition fake :: "rng \<Rightarrow> str \<times> rng" where
  "fake g = (faker g (pos g), g\<lparr>pos := Suc (pos g)\<rparr>)"

text \<open>\<open>random.random()\<close>, in hundredths: the result \<open>h\<close> stands for a float \<open>r\<close> with
  \<open>h = floor (100 * r)\<close>, and \<open>r < p / 100\<close> holds exactly when \<open>h < p\<close>.\<close>

definition random_random :: "rng \<Rightarrow> nat \<times> rng" where
  "random_random g = (case draw g of (r, g') \<Rightarrow> (r mod 100, g'))"

text \<open>\<open>random.randint(a, b)\<close> raises \<open>ValueError\<close> on an empty range.\<close>

definition randint :: "nat \<Rightarrow> nat \<Rightarrow> rng \<Rightarrow> error + nat \<times> rng" where
  "randint a b g =
     (if b < a then Inl ValueError
      else case draw g of (r, g') \<Rightarrow> Inr (a + r mod (b - a + 1), g'))"

text \<open>\<open>random.choice(seq)\<close> (and \<open>secrets.choice\<close>) raises \<open>IndexError\<close> on an empty sequence.\<close>

definition random_choice :: "'a list \<Rightarrow> rng \<Rightarrow> error + 'a \<times> rng" where
  "random_choice xs g =
     (if xs = [] then Inl IndexError
      else case draw g of (r, g') \<Rightarrow> Inr (xs ! (r mod length xs), g'))"

text \<open>Picking \<open>k\<close> elements at distinct positions, one draw each.\<close>

fun pick :: "nat \<Rightarrow> 'a list \<Rightarrow> rng \<Rightarrow> 'a list \<times> rng" where
  "pick 0 xs g = ([], g)"
| "pick (Suc k) xs g =
     (if xs = [] then ([], g)
      else case draw g of (r, g') \<Rightarrow>
        (let i = r mod length xs in
         case pick k (take i xs @ drop (Suc i) xs) g' of
           (ys, g'') \<Rightarrow> (xs ! i # ys, g'')))"

text \<open>\<open>random.sample(population, k)\<close> raises \<open>ValueError\<close> when the sample is larger than
  the population.\<close>

definition random_sample :: "'a list \<Rightarrow> nat \<Rightarrow> rng \<Rightarrow> error + 'a list \<times> rng" where
  "random_sample xs k g = (if length xs < k then Inl ValueError else Inr (pick k xs g))"

text \<open>\<open>random.shuffle(x)\<close>: a permutation of the list.\<close>

definition random_shuffle :: "'a list \<Rightarrow> rng \<Rightarrow> 'a list \<times> rng" where
  "random_shuffle xs g = pick (length xs) xs g"

text \<open>\<open>random.choices(population, weights)[0]\<close>: the first index whose cumulative weight
  exceeds \<open>random() * total\<close>, at most the last index; \<open>ValueError\<close> when the lengths differ
  or the total weight is not positive.  Weights are in hundredths.\<close>

fun bisect :: "nat list \<Rightarrow> nat \<Rightarrow> nat \<Rightarrow> nat" where
  "bisect [] acc x = 0"
| "bisect [w] acc x = 0"
| "bisect (w # ws) acc x = (if x < acc + w then 0 else Suc (bisect ws (acc + w) x))"

definition random_choices :: "'a list \<Rightarrow> nat list \<Rightarrow> rng \<Rightarrow> error + 'a \<times> rng" where
  "random_choices population weights g =
     (if length weights \<noteq> length population \<or> sum_list weights = 0 then Inl ValueError
      else case random_random g of (h, g') \<Rightarrow>
        Inr (population ! bisect weights 0 (h * sum_list weights div 100), g'))"

section \<open>Choosing the encoding method\<close>

definition methods :: "EncodingMethod list" where
  "methods = [NONE, BASE64, BASE64_MULTILINE, BASE64_URL_SAFE, ENCRYPTED_FERNET,
              ZIP_PASSWORD, ZIP_ENCRYPTED]"

definition choose_encoding_method :: "str \<Rightarrow> rng \<Rightarrow> error + EncodingMethod \<times> rng" where
  "choose_encoding_method ft g =
     (if ft = ''pdf'' then Inr (NONE, g)
      else if ft \<in> set [''jpg'', ''png''] then Inr (NONE, g)
      else if ft = ''eml'' then Inr (NONE, g)
      else random_choices methods
        (if ft = ''docx'' then [30, 20, 10, 10, 20, 5, 5]
         else if ft \<in> set [''xlsx'', ''csv''] then [20, 20, 10, 10, 10, 20, 10]
         else if ft = ''txt'' then [30, 30, 20, 10, 5, 3, 2]
         else [50, 20, 10, 10, 10, 0, 0]) g)"

section \<open>Standard-library codecs\<close>

subsection \<open>\<open>base64\<close> and \<open>binascii\<close>\<close>

definition b64_alphabet :: bytes where
  "b64_alphabet = ''ABCDEFGHIJKLMNOPQRSTUVWXYZabcdefghijklmnopqrstuvwxyz0123456789+/''"

definition table_b2a_base64 :: "nat \<Rightarrow> char" where
  "table_b2a_base64 n = b64_alphabet ! n"

fun index_of :: "'a \<Rightarrow> 'a list \<Rightarrow> nat option" where
  "index_of x [] = None"
| "index_of x (y # ys) = (if x = y then Some 0 else map_option Suc (index_of x ys))"

definition table_a2b_base64 :: "char \<Rightarrow> nat option" where
  "table_a2b_base64 c = index_of c b64_alphabet"

text \<open>\<open>binascii.b2a_base64(s, newline=False)\<close>: three bytes become four sextets, the rest
  is padded with \<open>=\<close>.  Shifts and masks are written as \<open>div\<close>, \<open>mod\<close> and \<open>*\<close>.\<close>

fun b2a_base64 :: "bytes \<Rightarrow> bytes" where
  "b2a_base64 (a # b # c # rest) =
     [table_b2a_base64 (of_char a div 4),
      table_b2a_base64 (of_char a mod 4 * 16 + of_char b div 16),
      table_b2a_base64 (of_char b mod 16 * 4 + of_char c div 64),
      table_b2a_base64 (of_char c mod 64)] @ b2a_base64 rest"
| "b2a_base64 [a, b] =
     [table_b2a_base64 (of_char a div 4),
      table_b2a_base64 (of_char a mod 4 * 16 + of_char b div 16),
      table_b2a_base64 (of_char b mod 16 * 4),
      CHR ''='']"
| "b2a_base64 [a] =
     [table_b2a_base64 (of_char a div 4),
      table_b2a_base64 (of_char a mod 4 * 16),
      CHR ''='', CHR ''='']"
| "b2a_base64 [] = []"

text \<open>\<open>binascii.a2b_base64(s)\<close> in its default, non-strict mode: characters outside the
  alphabet are skipped, a complete pad sequence ends the input, and input that ends inside
  a quad raises \<open>binascii.Error\<close>.  The state is \<open>quad_pos\<close>, \<open>leftchar\<close> and \<open>pads\<close>.\<close>

fun a2b_base64 :: "nat \<Rightarrow> nat \<Rightarrow> nat \<Rightarrow> bytes \<Rightarrow> error + bytes" where
  "a2b_base64 quad_pos leftchar pads [] = (if quad_pos \<noteq> 0 then Inl BinasciiError else Inr [])"
| "a2b_base64 quad_pos leftchar pads (this_ch # rest) =
     (if this_ch = CHR ''='' then
        (if quad_pos \<ge> 2 \<and> quad_pos + (pads + 1) \<ge> 4 then Inr []
         else a2b_base64 quad_pos leftchar (if quad_pos \<ge> 2 then pads + 1 else pads) rest)
      else case table_a2b_base64 this_ch of
        None \<Rightarrow> a2b_base64 quad_pos leftchar pads rest
      | Some v \<Rightarrow>
          (if quad_pos = 0 then a2b_base64 1 v 0 rest
           else if quad_pos = 1 then
             map_sum id ((#) (char_of (leftchar * 4 + v div 16))) (a2b_base64 2 (v mod 16) 0 rest)
           else if quad_pos = 2 then
             map_sum id ((#) (char_of (leftchar * 16 + v div 4))) (a2b_base64 3 (v mod 4) 0 rest)
           else
             map_sum id ((#) (char_of (leftchar * 64 + v))) (a2b_base64 0 0 0 rest)))"

definition b64encode :: "bytes \<Rightarrow> bytes" where
  "b64encode s = b2a_base64 s"

definition b64decode :: "bytes \<Rightarrow> error + bytes" where
  "b64decode s = a2b_base64 0 0 0 s"

definition translate :: "char \<Rightarrow> char \<Rightarrow> char \<Rightarrow> char \<Rightarrow> bytes \<Rightarrow> bytes" where
  "translate a a' b b' s = map (\<lambda>c. if c = a then a' else if c = b then b' else c) s"

definition urlsafe_b64encode :: "bytes \<Rightarrow> bytes" where
  "urlsafe_b64encode s = translate (CHR ''+'') (CHR ''-'') (CHR ''/'') (CHR ''_'') (b64encode s)"

definition urlsafe_b64decode :: "bytes \<Rightarrow> error + bytes" where
  "urlsafe_b64decode s = b64decode (translate (CHR ''-'') (CHR ''+'') (CHR ''_'') (CHR ''/'') s)"

subsection \<open>UTF-8\<close>

definition in_range :: "char \<Rightarrow> nat \<Rightarrow> nat \<Rightarrow> bool" where
  "in_range c lo hi = (lo \<le> of_char c \<and> (of_char c :: nat) \<le> hi)"

text \<open>The length of the well-formed UTF-8 sequence at the head of the input, 0 when there
  is none (no overlong forms, no surrogates, nothing above U+10FFFF).\<close>

fun utf8_seq_len :: "bytes \<Rightarrow> nat" where
  "utf8_seq_len [] = 0"
| "utf8_seq_len (b # bs) =
     (let n = of_char b :: nat in
      if n < 0x80 then 1
      else if 0xC2 \<le> n \<and> n \<le> 0xDF then
        (case bs of c1 # _ \<Rightarrow> if in_range c1 0x80 0xBF then 2 else 0 | _ \<Rightarrow> 0)
      else if 0xE0 \<le> n \<and> n \<le> 0xEF then
        (case bs of
           c1 # c2 # _ \<Rightarrow>
             if in_range c1 (if n = 0xE0 then 0xA0 else 0x80) (if n = 0xED then 0x9F else 0xBF)
                \<and> in_range c2 0x80 0xBF then 3 else 0
         | _ \<Rightarrow> 0)
      else if 0xF0 \<le> n \<and> n \<le> 0xF4 then
        (case bs of
           c1 # c2 # c3 # _ \<Rightarrow>
             if in_range c1 (if n = 0xF0 then 0x90 else 0x80) (if n = 0xF4 then 0x8F else 0xBF)
                \<and> in_range c2 0x80 0xBF \<and> in_range c3 0x80 0xBF then 4 else 0
         | _ \<Rightarrow> 0)
      else 0)"

text \<open>\<open>b.decode('utf-8', errors='ignore')\<close>: well-formed sequences are kept, every other
  byte is dropped; \<open>k\<close> counts the bytes of the current sequence still to copy.  It never
  raises.\<close>

fun decode_ignore :: "nat \<Rightarrow> bytes \<Rightarrow> str" where
  "decode_ignore k [] = []"
| "decode_ignore k (b # bs) =
     (if k > 0 then b # decode_ignore (k - 1) bs
      else (let n = utf8_seq_len (b # bs) in
            if n = 0 then decode_ignore 0 bs else b # decode_ignore (n - 1) bs))"

definition decode_utf8_ignore :: "bytes \<Rightarrow> str" where
  "decode_utf8_ignore b = decode_ignore 0 b"

text \<open>\<open>s.encode('utf-8')\<close>: a \<open>str\<close> is held as its UTF-8 bytes.\<close>

definition encode_utf8 :: "str \<Rightarrow> bytes" where
  "encode_utf8 s = s"

subsection \<open>String methods\<close>

text \<open>\<open>sep.join(parts)\<close>.\<close>

fun join :: "'a list \<Rightarrow> 'a list list \<Rightarrow> 'a list" where
  "join sep [] = []"
| "join sep [x] = x"
| "join sep (x # y # ys) = x @ sep @ join sep (y # ys)"

text \<open>\<open>s.split(c)\<close> for a one-character separator: at least one part.\<close>

fun split :: "char \<Rightarrow> str \<Rightarrow> str list" where
  "split c [] = [[]]"
| "split c (x # xs) =
     (if x = c then [] # split c xs
      else (case split c xs of [] \<Rightarrow> [[x]] | l # ls \<Rightarrow> (x # l) # ls))"

text \<open>\<open>s.replace(old, new)\<close> for a non-empty \<open>old\<close> (every call site passes a non-empty
  literal): occurrences are replaced from the left, without overlap.\<close>

function replace :: "str \<Rightarrow> str \<Rightarrow> str \<Rightarrow> str" where
  "replace old new [] = []"
| "replace old new (c # cs) =
     (if old \<noteq> [] \<and> prefix old (c # cs)
      then new @ replace old new (drop (length old) (c # cs))
      else c # replace old new cs)"
  by pat_completeness auto
termination
  by (relation "measure (\<lambda>(old, new, s). length s)") (auto simp: Suc_le_eq)

text \<open>\<open>upper\<close>, \<open>lower\<close> and \<open>title\<close> on ASCII letters (file types and Faker's \<open>en_US\<close>
  words are ASCII).\<close>

definition ascii_lowercase :: str where
  "ascii_lowercase = ''abcdefghijklmnopqrstuvwxyz''"

definition ascii_uppercase :: str where
  "ascii_uppercase = ''ABCDEFGHIJKLMNOPQRSTUVWXYZ''"

definition is_upper :: "char \<Rightarrow> bool" where
  "is_upper c = (c \<in> set ascii_uppercase)"

definition is_lower :: "char \<Rightarrow> bool" where
  "is_lower c = (c \<in> set ascii_lowercase)"

definition to_upper :: "char \<Rightarrow> char" where
  "to_upper c = (case index_of c ascii_lowercase of Some i \<Rightarrow> ascii_uppercase ! i | None \<Rightarrow> c)"

definition to_lower :: "char \<Rightarrow> char" where
  "to_lower c = (case index_of c ascii_uppercase of Some i \<Rightarrow> ascii_lowercase ! i | None \<Rightarrow> c)"

definition upper :: "str \<Rightarrow> str" where
  "upper s = map to_upper s"

definition lower :: "str \<Rightarrow> str" where
  "lower s = map to_lower s"

fun title_from :: "bool \<Rightarrow> str \<Rightarrow> str" where
  "title_from prev_cased [] = []"
| "title_from prev_cased (c # cs) =
     (if is_lower c then (if prev_cased then c else to_upper c) # title_from True cs
      else if is_upper c then (if prev_cased then to_lower c else c) # title_from True cs
      else c # title_from False cs)"

definition title :: "str \<Rightarrow> str" where
  "title s = title_from False s"

text \<open>\<open>str(n)\<close> for a non-negative integer.\<close>

function str_of_nat :: "nat \<Rightarrow> str" where
  "str_of_nat n =
     (if n < 10 then [''0123456789'' ! n] else str_of_nat (n div 10) @ [''0123456789'' ! (n mod 10)])"
  by pat_completeness auto
termination
  by (relation "measure id") auto

declare str_of_nat.simps [simp del]

section \<open>PasswordGenerator\<close>

definition weak_passwords :: "str list" where
  "weak_passwords = [''password123'', ''admin'', ''letmein'', ''welcome'', ''qwerty123'',
                     ''password1'', ''123456'', ''admin123'', ''welcome1'', ''password'']"

definition strong_chars :: str where
  "strong_chars =
     ''abcdefghijklmnopqrstuvwxyzABCDEFGHIJKLMNOPQRSTUVWXYZ'' @ ''0123456789'' @ ''!@#$%^&*''"

text \<open>\<open>''.join(secrets.choice(chars) for _ in range(n))\<close>.\<close>

fun secrets_chars :: "nat \<Rightarrow> str \<Rightarrow> rng \<Rightarrow> error + str \<times> rng" where
  "secrets_chars 0 chars g = Inr ([], g)"
| "secrets_chars (Suc n) chars g =
     (case random_choice chars g of
        Inl e \<Rightarrow> Inl e
      | Inr (c, g1) \<Rightarrow>
          (case secrets_chars n chars g1 of
             Inl e \<Rightarrow> Inl e
           | Inr (cs, g2) \<Rightarrow> Inr (c # cs, g2)))"

text \<open>The four medium patterns are all built, in the order of the source, before one is
  chosen; \<open>fake\<close> stands for the Faker providers \<open>word\<close>, \<open>first_name\<close>, \<open>company\<close>
  and \<open>city\<close>.\<close>

definition generate_password :: "str \<Rightarrow> rng \<Rightarrow> error + str \<times> rng" where
  "generate_password strength g =
     (if strength = ''weak'' then random_choice weak_passwords g
      else if strength = ''medium'' then
        (case fake g of (word, g1) \<Rightarrow>
         case randint 10 99 g1 of Inl e \<Rightarrow> Inl e | Inr (n1, g2) \<Rightarrow>
         case fake g2 of (first_name, g3) \<Rightarrow>
         case randint 1980 2024 g3 of Inl e \<Rightarrow> Inl e | Inr (n2, g4) \<Rightarrow>
         case fake g4 of (company, g5) \<Rightarrow>
         case randint 1 99 g5 of Inl e \<Rightarrow> Inl e | Inr (n3, g6) \<Rightarrow>
         case fake g6 of (city, g7) \<Rightarrow>
         case randint 10 999 g7 of Inl e \<Rightarrow> Inl e | Inr (n4, g8) \<Rightarrow>
           random_choice
             [title word @ str_of_nat n1 @ ''!'',
              first_name @ str_of_nat n2,
              take 8 (replace '','' [] (replace '' '' [] company)) @ str_of_nat n3,
              replace '' '' [] city @ str_of_nat n4] g8)
      else secrets_chars 16 strong_chars g)"

section \<open>FileEncoder\<close>

text \<open>
  The primitives of \<open>cryptography\<close> and \<open>pyzipper\<close> are parameters of the model:
  \<^item> \<open>pbkdf2_hmac\<close>: \<open>PBKDF2HMAC(algorithm, length, salt, iterations).derive(password)\<close>;
  \<^item> \<open>fernet_token\<close>: the token that \<open>Fernet.encrypt\<close> builds from the decoded 32-byte key,
    the current time, a fresh 16-byte IV and the data;
  \<^item> \<open>fernet_open\<close>: \<open>Fernet.decrypt\<close> under the decoded key (\<open>InvalidToken\<close> on failure);
  \<^item> \<open>aes_zip\<close>: the bytes of an \<open>AESZipFile\<close> written with the given compression and
    password, holding the entries of the \<open>writestr\<close> calls in order; the number stands
    for the salts that the archive draws.
\<close>

datatype hash_algorithm = SHA256

datatype compression = ZIP_LZMA | ZIP_DEFLATED

record crypto =
  pbkdf2_hmac :: "hash_algorithm \<Rightarrow> nat \<Rightarrow> bytes \<Rightarrow> nat \<Rightarrow> bytes \<Rightarrow> bytes"
  fernet_token :: "bytes \<Rightarrow> nat \<Rightarrow> bytes \<Rightarrow> bytes \<Rightarrow> bytes"
  fernet_open :: "bytes \<Rightarrow> bytes \<Rightarrow> error + bytes"
  aes_zip :: "compression \<Rightarrow> bytes \<Rightarrow> (str \<times> bytes) list \<Rightarrow> nat \<Rightarrow> bytes"

text \<open>\<open>os.urandom(n)\<close>.\<close>

fun urandom :: "nat \<Rightarrow> rng \<Rightarrow> bytes \<times> rng" where
  "urandom 0 g = ([], g)"
| "urandom (Suc n) g =
     (case draw g of (r, g1) \<Rightarrow> case urandom n g1 of (bs, g2) \<Rightarrow> (char_of r # bs, g2))"

text \<open>\<open>Fernet(key)\<close>: the key must be the url-safe base64 of 32 bytes, else \<open>ValueError\<close>.\<close>

definition Fernet :: "bytes \<Rightarrow> error + bytes" where
  "Fernet k =
     (case urlsafe_b64decode k of
        Inl e \<Rightarrow> Inl ValueError
      | Inr raw \<Rightarrow> if length raw \<noteq> 32 then Inl ValueError else Inr raw)"

text \<open>\<open>fernet.encrypt(data)\<close> reads the clock and draws the IV.\<close>

definition fernet_encrypt :: "crypto \<Rightarrow> bytes \<Rightarrow> bytes \<Rightarrow> rng \<Rightarrow> bytes \<times> rng" where
  "fernet_encrypt L raw_key data g =
     (case draw g of (now, g1) \<Rightarrow>
      case urandom 16 g1 of (iv, g2) \<Rightarrow> (fernet_token L raw_key now iv data, g2))"

text \<open>\<open>if not password: password = generate_password(strength)\<close>.\<close>

definition password_or_generate :: "str option \<Rightarrow> str \<Rightarrow> rng \<Rightarrow> error + str \<times> rng" where
  "password_or_generate pwd strength g =
     (case pwd of
        None \<Rightarrow> generate_password strength g
      | Some p \<Rightarrow> if p = [] then generate_password strength g else Inr (p, g))"

text \<open>\<open>range(0, n, 64)\<close>.\<close>

definition range64 :: "nat \<Rightarrow> nat list" where
  "range64 n = map (\<lambda>k. 64 * k) [0 ..< (n + 63) div 64]"

text \<open>The entries that the \<open>ZIP_ENCRYPTED\<close> branch writes, in order.\<close>

definition zip_encrypted_entries :: "bytes \<Rightarrow> (str \<times> bytes) list" where
  "zip_encrypted_entries content =
     [(''document.dat'',
       if length content > 100 then take (length content div 2) content else content)]
     @ (if length content > 100
        then [(''metadata.txt'', drop (length content div 2) content)] else [])
     @ [(''checksum.md5'', ''d41d8cd98f00b204e9800998ecf8427e'')]"

text \<open>\<open>encode_file(content, method, password)\<close> returns the encoded bytes and the metadata
  dictionary (in insertion order).\<close>

definition encode_file ::
  "crypto \<Rightarrow> bytes \<Rightarrow> EncodingMethod \<Rightarrow> str option \<Rightarrow> rng
     \<Rightarrow> error + (bytes \<times> (str \<times> str) list) \<times> rng" where
  "encode_file L content method pwd g =
     (if method = BASE64 then
        Inr ((b64encode content, [(''encoding'', ''base64'')]), g)
      else if method = BASE64_MULTILINE then
        (let encoded = b64encode content;
             lines = map (\<lambda>i. take 64 (drop i encoded)) (range64 (length encoded))
         in Inr ((join ''\<newline>'' lines,
                  [(''encoding'', ''base64''), (''format'', ''multiline'')]), g))
      else if method = BASE64_URL_SAFE then
        Inr ((urlsafe_b64encode content, [(''encoding'', ''base64url'')]), g)
      else if method = ENCRYPTED_FERNET then
        (case password_or_generate pwd ''medium'' g of
           Inl e \<Rightarrow> Inl e
         | Inr (pw, g1) \<Rightarrow>
             (case urandom 16 g1 of (salt16, g2) \<Rightarrow>
              let k = urlsafe_b64encode (pbkdf2_hmac L SHA256 32 salt16 100000 (encode_utf8 pw)) in
              case Fernet k of
                Inl e \<Rightarrow> Inl e
              | Inr raw_key \<Rightarrow>
                  (case fernet_encrypt L raw_key content g2 of (encrypted, g3) \<Rightarrow>
                     Inr ((salt16 @ encrypted,
                           [(''encryption'', ''fernet''), (''password'', pw),
                            (''salt'', b64encode salt16)]), g3))))
      else if method = ZIP_PASSWORD then
        (case password_or_generate pwd ''medium'' g of
           Inl e \<Rightarrow> Inl e
         | Inr (pw, g1) \<Rightarrow>
             (case draw g1 of (r, g2) \<Rightarrow>
                Inr ((aes_zip L ZIP_LZMA (encode_utf8 pw) [(''data.bin'', content)] r,
                      [(''compression'', ''zip''), (''encryption'', ''aes''),
                       (''password'', pw)]), g2)))
      else if method = ZIP_ENCRYPTED then
        (case password_or_generate pwd ''strong'' g of
           Inl e \<Rightarrow> Inl e
         | Inr (pw, g1) \<Rightarrow>
             (case draw g1 of (r, g2) \<Rightarrow>
                Inr ((aes_zip L ZIP_DEFLATED (encode_utf8 pw) (zip_encrypted_entries content) r,
                      [(''compression'', ''zip''), (''encryption'', ''aes256''),
                       (''password'', pw)]), g2)))
      else Inr ((content, [(''encoding'', ''none'')]), g))"

text \<open>\<open>decode_encrypted_file\<close> of the companion decoder \<open>decode_chaff.py\<close>, on the bytes of
  the file: the salt is the first 16 bytes.\<close>

definition decode_encrypted_file :: "crypto \<Rightarrow> bytes \<Rightarrow> str \<Rightarrow> error + bytes" where
  "decode_encrypted_file L encrypted_data pw =
     (let salt16 = take 16 encrypted_data;
          encrypted_content = drop 16 encrypted_data;
          k = urlsafe_b64encode (pbkdf2_hmac L SHA256 32 salt16 100000 (encode_utf8 pw))
      in case Fernet k of
           Inl e \<Rightarrow> Inl e
         | Inr raw_key \<Rightarrow> fernet_open L raw_key encrypted_content)"

section \<open>FileLinkingManager: the reference passes\<close>

text \<open>
  A pass appends references to \<open>self.file_references\<close> and may raise.  Its result is the
  list of references it appended, in order, together with the exception raised or the random
  source it leaves: what was appended before a raise stays appended.
\<close>

type_synonym 'r emitted = "'r list \<times> (error + rng)"

text \<open>A \<open>for\<close> loop over a list.\<close>

fun for_each :: "('a \<Rightarrow> rng \<Rightarrow> 'r emitted) \<Rightarrow> 'a list \<Rightarrow> rng \<Rightarrow> 'r emitted" where
  "for_each body [] g = ([], Inr g)"
| "for_each body (x # xs) g =
     (case body x g of
        (rs, Inl e) \<Rightarrow> (rs, Inl e)
      | (rs, Inr g1) \<Rightarrow> (case for_each body xs g1 of (rs', out) \<Rightarrow> (rs @ rs', out)))"

text \<open>One pass after another.\<close>

definition then_pass :: "'r emitted \<Rightarrow> (rng \<Rightarrow> 'r emitted) \<Rightarrow> 'r emitted" where
  "then_pass r p =
     (case r of
        (rs, Inl e) \<Rightarrow> (rs, Inl e)
      | (rs, Inr g) \<Rightarrow> (case p g of (rs', out) \<Rightarrow> (rs @ rs', out)))"

text \<open>\<open>random.randint(lo, min(hi, len(pool)))\<close> followed by \<open>random.sample(pool, n)\<close>.\<close>

definition sample_between ::
  "nat \<Rightarrow> nat \<Rightarrow> 'a list \<Rightarrow> rng \<Rightarrow> error + 'a list \<times> rng" where
  "sample_between lo hi pool g =
     (case randint lo (min hi (length pool)) g of
        Inl e \<Rightarrow> Inl e
      | Inr (n, g1) \<Rightarrow> random_sample pool n g1)"

definition attachment_contexts :: "FileGenerationPlan \<Rightarrow> str list" where
  "attachment_contexts attachment =
     [''Please see the attached '' @ upper (file_type attachment) @ '' file: '' @ filename attachment,
      ''Attachment: '' @ filename attachment @ '' contains the requested data'',
      ''See attached document '' @ filename attachment @ '' for details'',
      ''Please review the enclosed file: '' @ filename attachment,
      ''The file '' @ filename attachment @ '' is attached for your reference'',
      ''Attached: '' @ filename attachment @ '' (contains confidential information)'',
      ''Please find '' @ filename attachment @ '' attached to this email'',
      ''Document attached: '' @ filename attachment @ '' - requires immediate attention'']"

definition create_email_attachments ::
  "FileGenerationPlan list \<Rightarrow> FileGenerationPlan list \<Rightarrow> rng \<Rightarrow> FileReference emitted" where
  "create_email_attachments emails other_files =
     for_each (\<lambda>email g.
       if length other_files > 0 then
         (case sample_between 1 6 other_files g of
            Inl e \<Rightarrow> ([], Inl e)
          | Inr (attachments, g1) \<Rightarrow>
              for_each (\<lambda>attachment g2.
                case random_choice (attachment_contexts attachment) g2 of
                  Inl e \<Rightarrow> ([], Inl e)
                | Inr (ctx, g3) \<Rightarrow>
                    (case random_random g3 of (h, g4) \<Rightarrow>
                       ([\<lparr>source_file = filename email, target_file = filename attachment,
                          reference_type = ''attachment'', context_str = ctx\<rparr>]
                        @ (if h < 30
                           then [\<lparr>source_file = filename attachment, target_file = filename email,
                                  reference_type = ''email_source'',
                                  context_str = ''This file was sent via email: '' @ filename email\<rparr>]
                           else []),
                        Inr g4))) attachments g1)
       else ([], Inr g)) emails"

definition create_document_image_embeddings ::
  "FileGenerationPlan list \<Rightarrow> FileGenerationPlan list \<Rightarrow> rng \<Rightarrow> FileReference emitted" where
  "create_document_image_embeddings documents images =
     for_each (\<lambda>document g.
       case random_random g of (h, g1) \<Rightarrow>
         if h < 60 \<and> images \<noteq> [] then
           (case sample_between 1 3 images g1 of
              Inl e \<Rightarrow> ([], Inl e)
            | Inr (embedded_images, g2) \<Rightarrow>
                for_each (\<lambda>image g3.
                  ([\<lparr>source_file = filename document, target_file = filename image,
                     reference_type = ''embedded_image'',
                     context_str = ''Document contains embedded image: '' @ filename image\<rparr>],
                   Inr g3)) embedded_images g2)
         else ([], Inr g1)) documents"

definition document_reference_types :: "FileGenerationPlan \<Rightarrow> str list" where
  "document_reference_types ref_doc =
     [''See related document: '' @ filename ref_doc,
      ''Additional information in: '' @ filename ref_doc,
      ''Cross-reference: '' @ filename ref_doc,
      ''Supporting documentation: '' @ filename ref_doc,
      ''Referenced in document: '' @ filename ref_doc,
      ''See also: '' @ filename ref_doc @ '' for complete details'']"

definition create_document_references ::
  "FileGenerationPlan list \<Rightarrow> rng \<Rightarrow> FileReference emitted" where
  "create_document_references documents =
     for_each (\<lambda>doc g.
       let other_docs = filter (\<lambda>d. filename d \<noteq> filename doc) documents in
       if other_docs \<noteq> [] then
         (case sample_between 1 3 other_docs g of
            Inl e \<Rightarrow> ([], Inl e)
          | Inr (referenced_docs, g1) \<Rightarrow>
              for_each (\<lambda>ref_doc g2.
                case random_choice (document_reference_types ref_doc) g2 of
                  Inl e \<Rightarrow> ([], Inl e)
                | Inr (ctx, g3) \<Rightarrow>
                    ([\<lparr>source_file = filename doc, target_file = filename ref_doc,
                       reference_type = ''document_reference'', context_str = ctx\<rparr>],
                     Inr g3)) referenced_docs g1)
       else ([], Inr g)) documents"

definition reference_contexts :: "FileGenerationPlan \<Rightarrow> str list" where
  "reference_contexts ref_file =
     [''Data source: '' @ filename ref_file,
      ''Supporting file: '' @ filename ref_file,
      ''Referenced document: '' @ filename ref_file,
      ''Source material: '' @ filename ref_file,
      ''Analysis based on: '' @ filename ref_file,
      ''Data extracted from: '' @ filename ref_file]"

definition create_spreadsheet_references ::
  "FileGenerationPlan list \<Rightarrow> FileGenerationPlan list \<Rightarrow> rng \<Rightarrow> FileReference emitted" where
  "create_spreadsheet_references spreadsheets other_files =
     for_each (\<lambda>sheet g.
       if other_files \<noteq> [] then
         (case sample_between 2 4 other_files g of
            Inl e \<Rightarrow> ([], Inl e)
          | Inr (referenced_files, g1) \<Rightarrow>
              for_each (\<lambda>ref_file g2.
                case random_choice (reference_contexts ref_file) g2 of
                  Inl e \<Rightarrow> ([], Inl e)
                | Inr (ctx, g3) \<Rightarrow>
                    ([\<lparr>source_file = filename sheet, target_file = filename ref_file,
                       reference_type = ''data_source'', context_str = ctx\<rparr>],
                     Inr g3)) referenced_files g1)
       else ([], Inr g)) spreadsheets"

text \<open>A dictionary of lists in insertion order:
  \<open>if k not in d: d[k] = []\<close> and then \<open>d[k].append(v)\<close>.\<close>

fun dict_append :: "'k \<Rightarrow> 'v \<Rightarrow> ('k \<times> 'v list) list \<Rightarrow> ('k \<times> 'v list) list" where
  "dict_append k v [] = [(k, [v])]"
| "dict_append k v ((k', vs) # d) =
     (if k = k' then (k', vs @ [v]) # d else (k', vs) # dict_append k v d)"

definition project_names :: "str list" where
  "project_names = [''Alpha'', ''Beta'', ''Gamma'', ''Delta'', ''Phoenix'', ''Titan'', ''Nova'', ''Apex'']"

fun assign_projects ::
  "FileGenerationPlan list \<Rightarrow> (str \<times> FileGenerationPlan list) list \<Rightarrow> rng
     \<Rightarrow> error + (str \<times> FileGenerationPlan list) list \<times> rng" where
  "assign_projects [] project_files g = Inr (project_files, g)"
| "assign_projects (file # rest) project_files g =
     (case random_random g of (h, g1) \<Rightarrow>
        if h < 70 then
          (case random_choice project_names g1 of
             Inl e \<Rightarrow> Inl e
           | Inr (project, g2) \<Rightarrow> assign_projects rest (dict_append project file project_files) g2)
        else assign_projects rest project_files g1)"

definition create_project_references ::
  "FileGenerationPlan list \<Rightarrow> rng \<Rightarrow> FileReference emitted" where
  "create_project_references all_files g =
     (case assign_projects all_files [] g of
        Inl e \<Rightarrow> ([], Inl e)
      | Inr (project_files, g1) \<Rightarrow>
          for_each (\<lambda>(project, files) g2.
            if length files > 1 then
              for_each (\<lambda>file g3.
                let other_project_files = filter (\<lambda>f. filename f \<noteq> filename file) files in
                if other_project_files \<noteq> [] then
                  (case sample_between 1 2 other_project_files g3 of
                     Inl e \<Rightarrow> ([], Inl e)
                   | Inr (referenced, g4) \<Rightarrow>
                       for_each (\<lambda>ref_file g5.
                         ([\<lparr>source_file = filename file, target_file = filename ref_file,
                            reference_type = ''project_reference'',
                            context_str = ''Project '' @ project @ '' file: '' @ filename ref_file\<rparr>],
                          Inr g5)) referenced g4)
                else ([], Inr g3)) files g2
            else ([], Inr g2)) project_files g1)"

definition version_indicators :: "str list" where
  "version_indicators = [''_v2'', ''_v3'', ''_final'', ''_draft'', ''_copy'', ''_backup'', ''_old'']"

text \<open>The base name of a file name: every indicator is removed in turn, then the name is cut
  at its first dot.\<close>

definition base_name_of :: "str \<Rightarrow> str" where
  "base_name_of name =
     hd (split (CHR ''.'') (foldl (\<lambda>base_name indicator. replace indicator [] base_name)
                                   name version_indicators))"

definition base_names_of :: "FileGenerationPlan list \<Rightarrow> (str \<times> FileGenerationPlan list) list" where
  "base_names_of all_files =
     foldl (\<lambda>base_names file. dict_append (base_name_of (filename file)) file base_names)
           [] all_files"

definition version_contexts :: "FileGenerationPlan \<Rightarrow> str list" where
  "version_contexts other_file =
     [''Previous version: '' @ filename other_file,
      ''Updated version of: '' @ filename other_file,
      ''See also version: '' @ filename other_file,
      ''Replaces: '' @ filename other_file,
      ''Related version: '' @ filename other_file]"

definition create_version_references ::
  "FileGenerationPlan list \<Rightarrow> rng \<Rightarrow> FileReference emitted" where
  "create_version_references all_files =
     for_each (\<lambda>(base_name, files) g.
       if length files > 1 then
         for_each (\<lambda>file g1.
           for_each (\<lambda>other_file g2.
             case random_choice (version_contexts other_file) g2 of
               Inl e \<Rightarrow> ([], Inl e)
             | Inr (ctx, g3) \<Rightarrow>
                 ([\<lparr>source_file = filename file, target_file = filename other_file,
                    reference_type = ''version_reference'', context_str = ctx\<rparr>],
                  Inr g3))
             (filter (\<lambda>f. filename f \<noteq> filename file) files) g1) files g
       else ([], Inr g)) (base_names_of all_files)"

text \<open>The truth value of an optional string: \<open>None\<close> and the empty string are false.\<close>

definition truthy :: "str option \<Rightarrow> bool" where
  "truthy s = (case s of None \<Rightarrow> False | Some v \<Rightarrow> v \<noteq> [])"

text \<open>An optional string inside an f-string.\<close>

definition format_opt :: "str option \<Rightarrow> str" where
  "format_opt s = (case s of None \<Rightarrow> ''None'' | Some v \<Rightarrow> v)"

definition create_password_references ::
  "EncodedFile list \<Rightarrow> FileGenerationPlan list \<Rightarrow> rng \<Rightarrow> FileReference emitted" where
  "create_password_references the_encoded_files files =
     for_each (\<lambda>protected_file g.
       case random_random g of (h, g1) \<Rightarrow>
         if h < 70 then
           (let possible_containers =
                  filter (\<lambda>f. filename f \<noteq> filename (original_plan protected_file)
                              \<and> file_type f \<in> set [''eml'', ''txt'', ''docx'']) files in
            if possible_containers \<noteq> [] then
              (case random_choice possible_containers g1 of
                 Inl e \<Rightarrow> ([], Inl e)
               | Inr (container, g2) \<Rightarrow>
                   ([\<lparr>source_file = filename container,
                      target_file = filename (original_plan protected_file),
                      reference_type = ''password'',
                      context_str = ''Password for '' @ filename (original_plan protected_file)
                                    @ '': '' @ format_opt (password protected_file)\<rparr>],
                    Inr g2))
            else ([], Inr g1))
         else ([], Inr g1))
       (filter (\<lambda>f. truthy (password f) \<and> original_plan f \<in> set files) the_encoded_files)"

definition create_backup_references ::
  "FileGenerationPlan list \<Rightarrow> FileGenerationPlan list \<Rightarrow> rng \<Rightarrow> FileReference emitted" where
  "create_backup_references documents spreadsheets =
     for_each (\<lambda>doc g.
       if spreadsheets \<noteq> [] then
         (case random_choice spreadsheets g of
            Inl e \<Rightarrow> ([], Inl e)
          | Inr (backup, g1) \<Rightarrow>
              ([\<lparr>source_file = filename doc, target_file = filename backup,
                 reference_type = ''backup'',
                 context_str = ''Backup data stored in: '' @ filename backup\<rparr>],
               Inr g1))
       else ([], Inr g)) (take (length documents div 3) documents)"

definition create_data_references ::
  "FileGenerationPlan list \<Rightarrow> FileGenerationPlan list \<Rightarrow> rng \<Rightarrow> FileReference emitted" where
  "create_data_references spreadsheets documents =
     for_each (\<lambda>sheet g.
       if documents \<noteq> [] then
         (case random_choice documents g of
            Inl e \<Rightarrow> ([], Inl e)
          | Inr (source_doc, g1) \<Rightarrow>
              ([\<lparr>source_file = filename sheet, target_file = filename source_doc,
                 reference_type = ''data'',
                 context_str = ''Data source: '' @ filename source_doc\<rparr>],
               Inr g1))
       else ([], Inr g)) (take (length spreadsheets div 2) spreadsheets)"

text \<open>The partition of the plans by kind, as \<open>create_file_network\<close> computes it.\<close>

definition emails_of :: "FileGenerationPlan list \<Rightarrow> FileGenerationPlan list" where
  "emails_of plans = filter (\<lambda>p. file_type p = ''eml'') plans"

definition documents_of :: "FileGenerationPlan list \<Rightarrow> FileGenerationPlan list" where
  "documents_of plans = filter (\<lambda>p. file_type p \<in> set [''pdf'', ''docx'', ''txt'']) plans"

definition spreadsheets_of :: "FileGenerationPlan list \<Rightarrow> FileGenerationPlan list" where
  "spreadsheets_of plans = filter (\<lambda>p. file_type p \<in> set [''xlsx'', ''csv'']) plans"

definition images_of :: "FileGenerationPlan list \<Rightarrow> FileGenerationPlan list" where
  "images_of plans = filter (\<lambda>p. file_type p \<in> set [''jpg'', ''png'']) plans"

text \<open>The nine passes in the order of \<open>create_file_network\<close>.\<close>

definition create_references ::
  "EncodedFile list \<Rightarrow> FileGenerationPlan list \<Rightarrow> rng \<Rightarrow> FileReference emitted" where
  "create_references the_encoded_files plans g =
     (let emails = emails_of plans; documents = documents_of plans;
          spreadsheets = spreadsheets_of plans; images = images_of plans
      in then_pass (then_pass (then_pass (then_pass (then_pass (then_pass (then_pass (then_pass
           (create_email_attachments emails (documents @ spreadsheets @ images) g)
           (create_document_image_embeddings documents images))
           (create_document_references documents))
           (create_spreadsheet_references spreadsheets (documents @ images)))
           (create_password_references the_encoded_files plans))
           (create_backup_references documents spreadsheets))
           (create_data_references spreadsheets documents))
           (create_project_references plans))
           (create_version_references plans))"

section \<open>FileLinkingManager: encoding, rewriting and password hints\<close>

record FileLinkingManager =
  file_references :: "FileReference list"
  passwords :: "(str \<times> str) list"
  keys :: "(str \<times> str) list"
  encoded_files :: "EncodedFile list"

text \<open>\<open>FileLinkingManager()\<close>.\<close>

definition new_manager :: FileLinkingManager where
  "new_manager = \<lparr>file_references = [], passwords = [], keys = [], encoded_files = []\<rparr>"

text \<open>
  The content generators of \<open>templates.py\<close> and the body of
  \<open>_generate_email_with_references\<close> build text from Faker and the clock; they are
  parameters of the model:
  \<^item> \<open>template_generate plan image_refs attachment_refs\<close>: the bytes that the template of the
    plan's type and language generates for the plan's size and name, after
    \<open>set_image_references\<close> and \<open>set_attachment_references\<close> when they are called;
  \<^item> \<open>generate_email_with_references language attachments password_refs\<close>: the text of the
    regenerated email.
  Either may raise.
\<close>

record renderer =
  template_generate ::
    "FileGenerationPlan \<Rightarrow> str list option \<Rightarrow> str list option \<Rightarrow> rng \<Rightarrow> error + bytes \<times> rng"
  generate_email_with_references ::
    "str \<Rightarrow> FileReference list \<Rightarrow> FileReference list \<Rightarrow> rng \<Rightarrow> error + str \<times> rng"

text \<open>The keys of \<open>TemplateFactory.template_classes\<close>.\<close>

definition supported_types :: "str list" where
  "supported_types = [''pdf'', ''docx'', ''xlsx'', ''eml'', ''csv'', ''txt'', ''jpg'', ''png'']"

text \<open>\<open>[p.filename for p in random.sample(pool, random.randint(1, min(hi, len(pool))))]\<close>
  when the pool is not empty; otherwise nothing is set.\<close>

definition choose_references ::
  "nat \<Rightarrow> FileGenerationPlan list \<Rightarrow> rng \<Rightarrow> error + str list option \<times> rng" where
  "choose_references hi pool g =
     (if pool \<noteq> [] then
        (case sample_between 1 hi pool g of
           Inl e \<Rightarrow> Inl e
         | Inr (chosen, g1) \<Rightarrow> Inr (Some (map filename chosen), g1))
      else Inr (None, g))"

text \<open>The template of the plan and its content.  \<open>PDFTemplate\<close>, \<open>DOCXTemplate\<close> and
  \<open>EMLTemplate\<close> have \<open>set_image_references\<close>, and \<open>EMLTemplate\<close> has
  \<open>set_attachment_references\<close>, so the \<open>hasattr\<close> tests of these branches hold.\<close>

definition generate_content ::
  "renderer \<Rightarrow> FileGenerationPlan list \<Rightarrow> FileGenerationPlan list \<Rightarrow> FileGenerationPlan list
     \<Rightarrow> FileGenerationPlan \<Rightarrow> rng \<Rightarrow> error + bytes \<times> rng" where
  "generate_content T documents spreadsheets images plan g =
     (if lower (file_type plan) \<notin> set supported_types then Inl ValueError
      else if file_type plan \<in> set [''pdf'', ''docx''] then
        (case choose_references 3 images g of
           Inl e \<Rightarrow> Inl e
         | Inr (image_filenames, g1) \<Rightarrow> template_generate T plan image_filenames None g1)
      else if file_type plan = ''eml'' then
        (case choose_references 4 images g of
           Inl e \<Rightarrow> Inl e
         | Inr (image_filenames, g1) \<Rightarrow>
             (case choose_references 5 (documents @ spreadsheets) g1 of
                Inl e \<Rightarrow> Inl e
              | Inr (attachment_filenames, g2) \<Rightarrow>
                  template_generate T plan image_filenames attachment_filenames g2))
      else template_generate T plan None None g)"

text \<open>\<open>d[k] = v\<close> on a dictionary in insertion order.\<close>

fun dict_set :: "'k \<Rightarrow> 'v \<Rightarrow> ('k \<times> 'v) list \<Rightarrow> ('k \<times> 'v) list" where
  "dict_set k v [] = [(k, v)]"
| "dict_set k v ((k', v') # d) = (if k = k' then (k', v) # d else (k', v') # dict_set k v d)"

text \<open>One round of the first loop of \<open>create_file_network\<close>.\<close>

definition encode_plan ::
  "crypto \<Rightarrow> renderer \<Rightarrow> FileGenerationPlan list \<Rightarrow> FileGenerationPlan list
     \<Rightarrow> FileGenerationPlan list \<Rightarrow> FileLinkingManager \<Rightarrow> FileGenerationPlan \<Rightarrow> rng
     \<Rightarrow> error + FileLinkingManager \<times> rng" where
  "encode_plan L T documents spreadsheets images m plan g =
     (case choose_encoding_method (file_type plan) g of
        Inl e \<Rightarrow> Inl e
      | Inr (the_method, g1) \<Rightarrow>
     (case generate_content T documents spreadsheets images plan g1 of
        Inl e \<Rightarrow> Inl e
      | Inr (original_content, g2) \<Rightarrow>
     (case encode_file L original_content the_method None g2 of
        Inl e \<Rightarrow> Inl e
      | Inr ((encoded, metadata), g3) \<Rightarrow>
          (let encoded_file =
                 \<lparr>original_plan = plan, encoded_content = encoded, encoding_method = the_method,
                  password = map_of metadata ''password'', key = map_of metadata ''key'',
                  salt = map_of metadata ''salt''\<rparr>;
               m1 = m\<lparr>encoded_files := encoded_files m @ [encoded_file]\<rparr>;
               m2 = (if truthy (password encoded_file)
                     then m1\<lparr>passwords :=
                            dict_set (filename plan) (format_opt (password encoded_file)) (passwords m1)\<rparr>
                     else m1);
               m3 = (if truthy (key encoded_file)
                     then m2\<lparr>keys := dict_set (filename plan) (format_opt (key encoded_file)) (keys m2)\<rparr>
                     else m2)
           in Inr (m3, g3)))))"

fun encode_plans ::
  "crypto \<Rightarrow> renderer \<Rightarrow> FileGenerationPlan list \<Rightarrow> FileGenerationPlan list
     \<Rightarrow> FileGenerationPlan list \<Rightarrow> FileLinkingManager \<Rightarrow> FileGenerationPlan list \<Rightarrow> rng
     \<Rightarrow> error + FileLinkingManager \<times> rng" where
  "encode_plans L T documents spreadsheets images m [] g = Inr (m, g)"
| "encode_plans L T documents spreadsheets images m (plan # rest) g =
     (case encode_plan L T documents spreadsheets images m plan g of
        Inl e \<Rightarrow> Inl e
      | Inr (m1, g1) \<Rightarrow> encode_plans L T documents spreadsheets images m1 rest g1)"

text \<open>The references that leave a file.\<close>

definition references_from :: "FileReference list \<Rightarrow> str \<Rightarrow> FileReference list" where
  "references_from refs name = filter (\<lambda>r. source_file r = name) refs"

text \<open>One round of \<open>_update_email_content_with_references\<close>.\<close>

definition update_email ::
  "renderer \<Rightarrow> FileReference list \<Rightarrow> EncodedFile \<Rightarrow> rng \<Rightarrow> error + EncodedFile \<times> rng" where
  "update_email T refs encoded_file g =
     (if file_type (original_plan encoded_file) = ''eml'' then
        (let email_refs = references_from refs (filename (original_plan encoded_file)) in
         if email_refs \<noteq> [] then
           (let attachments = filter (\<lambda>r. reference_type r = ''attachment'') email_refs;
                password_refs =
                  filter (\<lambda>r. reference_type r = ''password''
                              \<and> source_file r = filename (original_plan encoded_file)) refs
            in case generate_email_with_references T (language (original_plan encoded_file))
                      attachments password_refs g of
                 Inl e \<Rightarrow> Inl e
               | Inr (custom_content, g1) \<Rightarrow>
                   Inr (encoded_file\<lparr>encoded_content := encode_utf8 custom_content\<rparr>, g1))
         else Inr (encoded_file, g))
      else Inr (encoded_file, g))"

text \<open>A loop that rewrites the files one by one.\<close>

fun update_each ::
  "(EncodedFile \<Rightarrow> rng \<Rightarrow> error + EncodedFile \<times> rng) \<Rightarrow> EncodedFile list \<Rightarrow> rng
     \<Rightarrow> error + EncodedFile list \<times> rng" where
  "update_each body [] g = Inr ([], g)"
| "update_each body (f # fs) g =
     (case body f g of
        Inl e \<Rightarrow> Inl e
      | Inr (f', g1) \<Rightarrow>
          (case update_each body fs g1 of
             Inl e \<Rightarrow> Inl e
           | Inr (fs', g2) \<Rightarrow> Inr (f' # fs', g2)))"

text \<open>One round of \<open>_update_document_content_with_references\<close>.  Decoding with
  \<open>errors='ignore'\<close> and encoding what was decoded never raise, so the \<open>except\<close> branch of
  the source is never taken.\<close>

definition update_document :: "FileReference list \<Rightarrow> EncodedFile \<Rightarrow> EncodedFile" where
  "update_document refs encoded_file =
     (if file_type (original_plan encoded_file) \<in> set [''txt'', ''docx''] then
        (let doc_refs = references_from refs (filename (original_plan encoded_file)) in
         if doc_refs \<noteq> [] then
           (let additional_content =
                  ''\<newline>\<newline>REFERENCED FILES:\<newline>''
                  @ concat (map (\<lambda>r. ''- '' @ context_str r @ ''\<newline>'') doc_refs)
            in if file_type (original_plan encoded_file) = ''txt'' then
                 (let current_content = decode_utf8_ignore (encoded_content encoded_file);
                      new_content = current_content @ additional_content
                  in encoded_file\<lparr>encoded_content := encode_utf8 new_content\<rparr>)
               else encoded_file)
         else encoded_file)
      else encoded_file)"

text \<open>One round of \<open>_update_spreadsheet_content_with_references\<close>; here too the \<open>except\<close>
  branch is never taken.\<close>

definition update_spreadsheet :: "FileReference list \<Rightarrow> EncodedFile \<Rightarrow> EncodedFile" where
  "update_spreadsheet refs encoded_file =
     (if file_type (original_plan encoded_file) \<in> set [''csv''] then
        (let sheet_refs = references_from refs (filename (original_plan encoded_file)) in
         if sheet_refs \<noteq> [] then
           (let current_content = decode_utf8_ignore (encoded_content encoded_file);
                lines = split (CHR ''\<newline>'') current_content;
                reference_comments =
                  [''# REFERENCED FILES:''] @ map (\<lambda>r. ''# '' @ context_str r) sheet_refs @ [[]];
                new_lines = reference_comments @ lines;
                new_content = join ''\<newline>'' new_lines
            in encoded_file\<lparr>encoded_content := encode_utf8 new_content\<rparr>)
         else encoded_file)
      else encoded_file)"

definition hint_formats :: "str \<Rightarrow> str \<Rightarrow> str list" where
  "hint_formats protected_filename pw =
     [''Note: Archive password for '' @ protected_filename @ '': '' @ pw,
      ''Backup access code: '' @ pw @ '' (for '' @ protected_filename @ '')'',
      ''Decryption key: '' @ pw,
      ''Access credentials - File: '' @ protected_filename @ '', Pass: '' @ pw,
      ''Security memo: '' @ protected_filename @ '' requires password '' @ [CHR 0x27] @ pw @ [CHR 0x27]]"

text \<open>The two characters that the source writes as \<open>\\n\<close> inside the f-string of the hint:
  a backslash and the letter n.\<close>

definition backslash_n :: str where
  "backslash_n = [CHR 0x5C, CHR ''n'']"

text \<open>The loop of \<open>_distribute_password_hints\<close>.  \<open>text_files\<close> holds the positions in
  \<open>encoded_files\<close> of the files of type txt or docx: the loop changes the file object that
  both lists share.\<close>

fun distribute_hints ::
  "nat list \<Rightarrow> nat \<Rightarrow> (str \<times> str) list \<Rightarrow> EncodedFile list \<Rightarrow> rng
     \<Rightarrow> error + EncodedFile list \<times> rng" where
  "distribute_hints text_files i [] efs g = Inr (efs, g)"
| "distribute_hints text_files i ((protected_filename, pw) # rest) efs g =
     (if i < length text_files then
        (let target_file = efs ! (text_files ! i) in
         case random_choice (hint_formats protected_filename pw) g of
           Inl e \<Rightarrow> Inl e
         | Inr (hint, g1) \<Rightarrow>
             if file_type (original_plan target_file) = ''txt'' then
               (let current_content = decode_utf8_ignore (encoded_content target_file);
                    new_content = current_content @ backslash_n @ backslash_n @ hint @ backslash_n
                in distribute_hints text_files (Suc i) rest
                     (efs[text_files ! i := target_file\<lparr>encoded_content := encode_utf8 new_content\<rparr>])
                     g1)
             else distribute_hints text_files (Suc i) rest efs g1)
      else distribute_hints text_files (Suc i) rest efs g)"

definition distribute_password_hints ::
  "FileLinkingManager \<Rightarrow> rng \<Rightarrow> error + FileLinkingManager \<times> rng" where
  "distribute_password_hints m g =
     (let text_files = filter (\<lambda>j. file_type (original_plan (encoded_files m ! j))
                                      \<in> set [''txt'', ''docx''])
                              [0 ..< length (encoded_files m)]
      in case random_shuffle (passwords m) g of (all_passwords, g1) \<Rightarrow>
           (case distribute_hints text_files 0 (take (length text_files div 2) all_passwords)
                   (encoded_files m) g1 of
              Inl e \<Rightarrow> Inl e
            | Inr (efs, g2) \<Rightarrow> Inr (m\<lparr>encoded_files := efs\<rparr>, g2)))"

text \<open>\<open>create_file_network(plans)\<close> on a manager: the encoded files it returns, the manager
  it leaves and the random source.\<close>

definition create_file_network ::
  "crypto \<Rightarrow> renderer \<Rightarrow> FileLinkingManager \<Rightarrow> FileGenerationPlan list \<Rightarrow> rng
     \<Rightarrow> error + (EncodedFile list \<times> FileLinkingManager) \<times> rng" where
  "create_file_network L T m plans g =
     (case encode_plans L T (documents_of plans) (spreadsheets_of plans) (images_of plans)
             m plans g of
        Inl e \<Rightarrow> Inl e
      | Inr (m1, g1) \<Rightarrow>
     (case create_references (encoded_files m1) plans g1 of
        (refs, Inl e) \<Rightarrow> Inl e
      | (refs, Inr g2) \<Rightarrow>
     (let m2 = m1\<lparr>file_references := file_references m1 @ refs\<rparr> in
      case update_each (update_email T (file_references m2)) (encoded_files m2) g2 of
        Inl e \<Rightarrow> Inl e
      | Inr (efs3, g3) \<Rightarrow>
     (let m3 = m2\<lparr>encoded_files :=
                    map (update_spreadsheet (file_references m2))
                      (map (update_document (file_references m2)) efs3)\<rparr> in
      case distribute_password_hints m3 g3 of
        Inl e \<Rightarrow> Inl e
      | Inr (m4, g4) \<Rightarrow> Inr ((encoded_files m4, m4), g4)))))"

section \<open>Predicates of the specification\<close>

text \<open>The values of a dictionary of lists.\<close>

definition dict_values :: "('k \<times> 'v list) list \<Rightarrow> 'v set" where
  "dict_values d = (\<Union>(k, vs) \<in> set d. set vs)"

text \<open>Equal file names go with equal file types.  This holds when the names of the plan set
  are unique, and when every name ends in its file type as the planner's names do.\<close>

definition names_fix_types :: "FileGenerationPlan list \<Rightarrow> bool" where
  "names_fix_types plans =
     (\<forall>p \<in> set plans. \<forall>q \<in> set plans. filename p = filename q \<longrightarrow> file_type p = file_type q)"

text \<open>The content of a carrier after a hint has been appended.\<close>

definition with_hint :: "EncodedFile \<Rightarrow> str \<Rightarrow> EncodedFile" where
  "with_hint f hint =
     f\<lparr>encoded_content :=
         encode_utf8 (decode_utf8_ignore (encoded_content f)
                      @ backslash_n @ backslash_n @ hint @ backslash_n)\<rparr>"

text \<open>A file and what it becomes when a hint for one of the given (file name, password)
  pairs is appended.\<close>

definition hinted :: "(str \<times> str) list \<Rightarrow> EncodedFile \<Rightarrow> EncodedFile \<Rightarrow> bool" where
  "hinted pws f f' =
     (\<exists>(protected_filename, pw) \<in> set pws. \<exists>hint \<in> set (hint_formats protected_filename pw).
        f' = with_hint f hint)"

section \<open>Example instances\<close>

text \<open>A random source and a trivial instance of the cryptographic primitives, for running the
  model on concrete inputs: the derived key is constant, the token is the data itself and
  the archive is the concatenation of its entries.\<close>

definition example_rng :: rng where
  "example_rng = \<lparr>tape = (\<lambda>n. 7 * n + 3), faker = (\<lambda>n. ''Reed''), pos = 0\<rparr>"

definition example_crypto :: crypto where
  "example_crypto =
     \<lparr>pbkdf2_hmac = (\<lambda>alg n s it p. replicate n (CHR ''k'')),
      fernet_token = (\<lambda>k now iv d. d),
      fernet_open = (\<lambda>k t. Inr t),
      aes_zip = (\<lambda>c p entries r. concat (map snd entries))\<rparr>"

definition example_plans :: "FileGenerationPlan list" where
  "example_plans =
     [\<lparr>file_type = ''eml'', size_bytes = 2048, language = ''en'', filename = ''report_draft.eml''\<rparr>,
      \<lparr>file_type = ''txt'', size_bytes = 1024, language = ''en'', filename = ''report.txt''\<rparr>,
      \<lparr>file_type = ''txt'', size_bytes = 1024, language = ''en'', filename = ''report_v2.txt''\<rparr>,
      \<lparr>file_type = ''csv'', size_bytes = 4096, language = ''en'', filename = ''data.csv''\<rparr>,
      \<lparr>file_type = ''png'', size_bytes = 512, language = ''en'', filename = ''chart.png''\<rparr>]"

text \<open>An example run of \<open>create_file_network\<close> on two text files.  The content generators
  return fixed text.  The random source gives 95 at its first draw, 2 at draw 31 and 0
  elsewhere, and Faker always answers \<open>Reed\<close>; \<open>run_rng k\<close> is the source at position \<open>k\<close>.
  The other definitions name the values that the run goes through.\<close>

definition example_renderer :: renderer where
  "example_renderer =
     \<lparr>template_generate = (\<lambda>plan image_refs attachment_refs g. Inr (''chaff'', g)),
      generate_email_with_references = (\<lambda>lang attachments password_refs g. Inr (''mail'', g))\<rparr>"

definition vault_plan :: FileGenerationPlan where
  "vault_plan = \<lparr>file_type = ''txt'', size_bytes = 1024, language = ''en'', filename = ''vault.txt''\<rparr>"

definition notes_plan :: FileGenerationPlan where
  "notes_plan = \<lparr>file_type = ''txt'', size_bytes = 1024, language = ''en'', filename = ''notes.txt''\<rparr>"

definition run_rng :: "nat \<Rightarrow> rng" where
  "run_rng k = \<lparr>tape = (\<lambda>n. if n = 0 then 95 else if n = 31 then 2 else 0), faker = (\<lambda>n. ''Reed''), pos = k\<rparr>"

definition vault_encoded :: EncodedFile where
  "vault_encoded = \<lparr>original_plan = vault_plan, encoded_content = ''chaff'',
      encoding_method = ZIP_PASSWORD, password = Some ''Reed10!'', key = None, salt = None\<rparr>"

definition notes_encoded :: EncodedFile where
  "notes_encoded = \<lparr>original_plan = notes_plan, encoded_content = ''chaff'',
      encoding_method = NONE, password = None, key = None, salt = None\<rparr>"

definition doc_ref :: "str \<Rightarrow> str \<Rightarrow> FileReference" where
  "doc_ref a b = \<lparr>source_file = a, target_file = b, reference_type = ''document_reference'',
      context_str = ''See related document: '' @ b\<rparr>"

definition project_ref :: "str \<Rightarrow> str \<Rightarrow> FileReference" where
  "project_ref a b = \<lparr>source_file = a, target_file = b, reference_type = ''project_reference'',
      context_str = ''Project Alpha file: '' @ b\<rparr>"

definition password_ref :: FileReference where
  "password_ref = \<lparr>source_file = ''notes.txt'', target_file = ''vault.txt'',
      reference_type = ''password'', context_str = ''Password for vault.txt: Reed10!''\<rparr>"

definition run_references :: "FileReference list" where
  "run_references =
     [doc_ref ''vault.txt'' ''notes.txt'', doc_ref ''notes.txt'' ''vault.txt'', password_ref,
      project_ref ''vault.txt'' ''notes.txt'', project_ref ''notes.txt'' ''vault.txt'']"

definition vault_rewritten :: bytes where
  "vault_rewritten =
     ''chaff\<newline>\<newline>REFERENCED FILES:\<newline>- See related document: notes.txt\<newline>- Project Alpha file: notes.txt\<newline>''"

definition notes_rewritten :: bytes where
  "notes_rewritten =
     ''chaff\<newline>\<newline>REFERENCED FILES:\<newline>- See related document: vault.txt\<newline>- Password for vault.txt: Reed10!\<newline>- Project Alpha file: vault.txt\<newline>''"

definition rewritten_manager :: FileLinkingManager where
  "rewritten_manager =
     \<lparr>file_references = run_references, passwords = [(''vault.txt'', ''Reed10!'')], keys = [],
      encoded_files = [vault_encoded\<lparr>encoded_content := vault_rewritten\<rparr>,
                       notes_encoded\<lparr>encoded_content := notes_rewritten\<rparr>]\<rparr>"

section \<open>Theorems\<close>

text \<open>
  C3.  For a file type that is a PDF, an image (jpg, png) or an email (eml), the encoding
  selector returns \<open>NONE\<close> whatever the random source holds, and draws nothing from it.
\<close>

theorem choose_encoding_hard_rules:
  "ft \<in> {''pdf'', ''jpg'', ''png'', ''eml''} \<Longrightarrow> choose_encoding_method ft g = Inr (NONE, g)"
  by (auto simp: choose_encoding_method_def)

theorem choose_encoding_hard_rules_witness:
  "''png'' \<in> {''pdf'', ''jpg'', ''png'', ''eml''} \<and>
   choose_encoding_method ''png'' \<lparr>tape = (\<lambda>n. 7 * n + 3), faker = (\<lambda>n. ''x''), pos = 0\<rparr>
     = Inr (NONE, \<lparr>tape = (\<lambda>n. 7 * n + 3), faker = (\<lambda>n. ''x''), pos = 0\<rparr>)"
  using choose_encoding_hard_rules [of "''png''" "\<lparr>tape = (\<lambda>n. 7 * n + 3), faker = (\<lambda>n. ''x''), pos = 0\<rparr>"]
  by simp


subsection \<open>Base64\<close>

lemma distinct_alphabet: "distinct b64_alphabet"
  by (simp add: b64_alphabet_def)

lemma length_alphabet: "length b64_alphabet = 64"
  by (simp add: b64_alphabet_def)

lemma index_of_nth: "distinct xs \<Longrightarrow> n < length xs \<Longrightarrow> index_of (xs ! n) xs = Some n"
proof (induction xs arbitrary: n)
  case Nil
  then show ?case by simp
next
  case (Cons x xs)
  show ?case
  proof (cases n)
    case 0
    then show ?thesis by simp
  next
    case (Suc m)
    with Cons.prems have "xs ! m \<in> set xs" "x \<notin> set xs" by auto
    then have "xs ! m \<noteq> x" by auto
    with Suc Cons show ?thesis by auto
  qed
qed

lemma table_inverse: "n < 64 \<Longrightarrow> table_a2b_base64 (table_b2a_base64 n) = Some n"
  unfolding table_a2b_base64_def table_b2a_base64_def
  by (rule index_of_nth) (simp_all add: distinct_alphabet length_alphabet)

lemma table_in_alphabet: "n < 64 \<Longrightarrow> table_b2a_base64 n \<in> set b64_alphabet"
  by (simp add: table_b2a_base64_def length_alphabet)

lemma pad_not_in_alphabet: "CHR ''='' \<notin> set b64_alphabet"
  by (simp add: b64_alphabet_def)

lemma table_not_pad: "n < 64 \<Longrightarrow> table_b2a_base64 n \<noteq> CHR ''=''"
  using table_in_alphabet [of n] pad_not_in_alphabet by metis

lemma of_char_lt: "of_char (c::char) < (256::nat)"
  by (metis of_char_mod_256 mod_less_divisor zero_less_numeral)

lemma sextets:
  fixes x y z :: nat
  assumes "x < 256" "y < 256" "z < 256"
  shows "x div 4 < 64" "x mod 4 * 16 + y div 16 < 64" "y mod 16 * 4 + z div 64 < 64" "z mod 64 < 64"
    "x mod 4 * 16 < 64" "y mod 16 * 4 < 64"
proof -
  have a: "x mod 4 < 4" "y mod 16 < 16" "y div 16 < 16" "z div 64 < 4"
    using assms by (simp_all add: less_mult_imp_div_less)
  show "x div 4 < 64" using assms by (simp add: less_mult_imp_div_less)
  show "x mod 4 * 16 + y div 16 < 64" using a by linarith
  show "y mod 16 * 4 + z div 64 < 64" using a by linarith
  show "z mod 64 < 64" by simp
  show "x mod 4 * 16 < 64" using a by linarith
  show "y mod 16 * 4 < 64" using a by linarith
qed

lemma octets:
  fixes x y z :: nat
  assumes "x < 256" "y < 256" "z < 256"
  shows "x div 4 * 4 + (x mod 4 * 16 + y div 16) div 16 = x"
    "(x mod 4 * 16 + y div 16) mod 16 * 16 + (y mod 16 * 4 + z div 64) div 4 = y"
    "(y mod 16 * 4 + z div 64) mod 4 * 64 + z mod 64 = z"
    "x div 4 * 4 + (x mod 4 * 16) div 16 = x"
    "(x mod 4 * 16 + y div 16) mod 16 * 16 + (y mod 16 * 4) div 4 = y"
proof -
  have a: "y div 16 < 16" "z div 64 < 4"
    using assms by (simp_all add: less_mult_imp_div_less)
  have d1: "(x mod 4 * 16 + y div 16) div 16 = x mod 4"
    using a by simp
  have m1: "(x mod 4 * 16 + y div 16) mod 16 = y div 16"
    using a by simp
  have d2: "(y mod 16 * 4 + z div 64) div 4 = y mod 16"
    using a by simp
  have m2: "(y mod 16 * 4 + z div 64) mod 4 = z div 64"
    using a by simp
  show "x div 4 * 4 + (x mod 4 * 16 + y div 16) div 16 = x"
    unfolding d1 by simp
  show "(x mod 4 * 16 + y div 16) mod 16 * 16 + (y mod 16 * 4 + z div 64) div 4 = y"
    unfolding m1 d2 by simp
  show "(y mod 16 * 4 + z div 64) mod 4 * 64 + z mod 64 = z"
    unfolding m2 by simp
  show "x div 4 * 4 + (x mod 4 * 16) div 16 = x"
    by simp
  show "(x mod 4 * 16 + y div 16) mod 16 * 16 + (y mod 16 * 4) div 4 = y"
    unfolding m1 by simp
qed

lemma decode_quad:
  assumes "s0 < 64" "s1 < 64" "s2 < 64" "s3 < 64"
  shows "a2b_base64 0 0 0 (table_b2a_base64 s0 # table_b2a_base64 s1 # table_b2a_base64 s2 # table_b2a_base64 s3 # rest)
     = map_sum id (\<lambda>bs. char_of (s0 * 4 + s1 div 16) # char_of (s1 mod 16 * 16 + s2 div 4) # char_of (s2 mod 4 * 64 + s3) # bs)
         (a2b_base64 0 0 0 rest)"
  using assms by (simp add: table_inverse table_not_pad sum.map_comp comp_def id_def)

lemma decode_pad1:
  assumes "s0 < 64" "s1 < 64" "s2 < 64"
  shows "a2b_base64 0 0 0 [table_b2a_base64 s0, table_b2a_base64 s1, table_b2a_base64 s2, CHR ''='']
     = Inr [char_of (s0 * 4 + s1 div 16), char_of (s1 mod 16 * 16 + s2 div 4)]"
  using assms by (simp add: table_inverse table_not_pad)

lemma decode_pad2:
  assumes "s0 < 64" "s1 < 64"
  shows "a2b_base64 0 0 0 [table_b2a_base64 s0, table_b2a_base64 s1, CHR ''='', CHR ''='']
     = Inr [char_of (s0 * 4 + s1 div 16)]"
  using assms by (simp add: table_inverse table_not_pad)

lemma a2b_b2a: "a2b_base64 0 0 0 (b2a_base64 s) = Inr s"
proof (induction s rule: b2a_base64.induct)
  case (1 a b c rest)
  define x y z :: nat where "x = of_char a" and "y = of_char b" and "z = of_char c"
  have lt: "x < 256" "y < 256" "z < 256"
    by (simp_all add: x_def y_def z_def of_char_lt)
  have bk: "char_of x = a" "char_of y = b" "char_of z = c"
    by (simp_all add: x_def y_def z_def)
  have "a2b_base64 0 0 0 (b2a_base64 (a # b # c # rest)) =
        a2b_base64 0 0 0 (table_b2a_base64 (x div 4) # table_b2a_base64 (x mod 4 * 16 + y div 16) #
          table_b2a_base64 (y mod 16 * 4 + z div 64) # table_b2a_base64 (z mod 64) # b2a_base64 rest)"
    by (simp only: b2a_base64.simps x_def y_def z_def append.simps)
  also have "\<dots> = map_sum id (\<lambda>bs. char_of (x div 4 * 4 + (x mod 4 * 16 + y div 16) div 16) #
        char_of ((x mod 4 * 16 + y div 16) mod 16 * 16 + (y mod 16 * 4 + z div 64) div 4) #
        char_of ((y mod 16 * 4 + z div 64) mod 4 * 64 + z mod 64) # bs) (a2b_base64 0 0 0 (b2a_base64 rest))"
    by (rule decode_quad) (rule sextets [OF lt])+
  also have "\<dots> = Inr (a # b # c # rest)"
    by (simp only: octets [OF lt] bk "1.IH" map_sum.simps)
  finally show ?case .
next
  case (2 a b)
  define x y :: nat where "x = of_char a" and "y = of_char b"
  have lt: "x < 256" "y < 256" "y < 256"
    by (simp_all add: x_def y_def of_char_lt)
  have bk: "char_of x = a" "char_of y = b"
    by (simp_all add: x_def y_def)
  have "a2b_base64 0 0 0 (b2a_base64 [a, b]) =
        a2b_base64 0 0 0 [table_b2a_base64 (x div 4), table_b2a_base64 (x mod 4 * 16 + y div 16),
          table_b2a_base64 (y mod 16 * 4), CHR ''='']"
    by (simp only: b2a_base64.simps x_def y_def)
  also have "\<dots> = Inr [char_of (x div 4 * 4 + (x mod 4 * 16 + y div 16) div 16),
        char_of ((x mod 4 * 16 + y div 16) mod 16 * 16 + (y mod 16 * 4) div 4)]"
    by (rule decode_pad1) (rule sextets [OF lt])+
  also have "\<dots> = Inr [a, b]"
    by (simp only: octets [OF lt] bk)
  finally show ?case .
next
  case (3 a)
  define x :: nat where "x = of_char a"
  have lt: "x < 256" "x < 256" "x < 256"
    by (simp_all add: x_def of_char_lt)
  have bk: "char_of x = a"
    by (simp add: x_def)
  have "a2b_base64 0 0 0 (b2a_base64 [a]) =
        a2b_base64 0 0 0 [table_b2a_base64 (x div 4), table_b2a_base64 (x mod 4 * 16), CHR ''='', CHR ''='']"
    by (simp only: b2a_base64.simps x_def)
  also have "\<dots> = Inr [char_of (x div 4 * 4 + (x mod 4 * 16) div 16)]"
    by (rule decode_pad2) (rule sextets [OF lt])+
  also have "\<dots> = Inr [a]"
    by (simp only: octets [OF lt] bk)
  finally show ?case .
next
  case 4
  show ?case by simp
qed

lemma b64decode_b64encode: "b64decode (b64encode s) = Inr s"
  by (simp add: b64decode_def b64encode_def a2b_b2a)

lemma set_b2a_base64: "set (b2a_base64 s) \<subseteq> insert (CHR ''='') (set b64_alphabet)"
proof (induction s rule: b2a_base64.induct)
  case (1 a b c rest)
  note lt = of_char_lt [of a] of_char_lt [of b] of_char_lt [of c]
  show ?case
    using 1 table_in_alphabet [OF sextets(1) [OF lt]] table_in_alphabet [OF sextets(2) [OF lt]]
      table_in_alphabet [OF sextets(3) [OF lt]] table_in_alphabet [OF sextets(4) [OF lt]]
    by simp
next
  case (2 a b)
  note lt = of_char_lt [of a] of_char_lt [of b] of_char_lt [of b]
  show ?case
    using table_in_alphabet [OF sextets(1) [OF lt]] table_in_alphabet [OF sextets(2) [OF lt]]
      table_in_alphabet [OF sextets(6) [OF lt]]
    by simp
next
  case (3 a)
  note lt = of_char_lt [of a] of_char_lt [of a] of_char_lt [of a]
  show ?case
    using table_in_alphabet [OF sextets(1) [OF lt]] table_in_alphabet [OF sextets(5) [OF lt]]
    by simp
next
  case 4
  show ?case by simp
qed

lemma translate_inverse:
  assumes "a' \<notin> set s" "b' \<notin> set s" "a \<noteq> b" "a' \<noteq> b'"
  shows "translate a' a b' b (translate a a' b b' s) = s"
  using assms by (induction s) (auto simp: translate_def)

lemma urlsafe_chars_not_in_alphabet:
  "CHR ''-'' \<notin> insert (CHR ''='') (set b64_alphabet)" "CHR ''_'' \<notin> insert (CHR ''='') (set b64_alphabet)"
  by (simp_all add: b64_alphabet_def)

lemma urlsafe_b64decode_urlsafe_b64encode: "urlsafe_b64decode (urlsafe_b64encode s) = Inr s"
proof -
  have "CHR ''-'' \<notin> set (b64encode s)" "CHR ''_'' \<notin> set (b64encode s)"
    using set_b2a_base64 [of s] urlsafe_chars_not_in_alphabet
    unfolding b64encode_def by blast+
  then have "translate (CHR ''-'') (CHR ''+'') (CHR ''_'') (CHR ''/'')
        (translate (CHR ''+'') (CHR ''-'') (CHR ''/'') (CHR ''_'') (b64encode s)) = b64encode s"
    by (intro translate_inverse) simp_all
  then show ?thesis
    by (simp add: urlsafe_b64decode_def urlsafe_b64encode_def b64decode_b64encode)
qed

lemma newline_not_base64:
  "table_a2b_base64 (CHR ''\<newline>'') = None" "CHR ''\<newline>'' \<noteq> CHR ''=''"
  by (simp_all add: table_a2b_base64_def b64_alphabet_def)

lemma a2b_skips_newlines:
  "a2b_base64 q l p (filter (\<lambda>c. c \<noteq> CHR ''\<newline>'') s) = a2b_base64 q l p s"
proof (induction s arbitrary: q l p)
  case Nil
  show ?case by simp
next
  case (Cons c s)
  show ?case
  proof (cases "c = CHR ''\<newline>''")
    case True
    then show ?thesis using Cons [of q l p] by (simp add: newline_not_base64)
  next
    case False
    then show ?thesis by (simp add: Cons split: option.split)
  qed
qed

lemma filter_join: "filter (\<lambda>c. c \<noteq> x) (join [x] ls) = filter (\<lambda>c. c \<noteq> x) (concat ls)"
  by (induction "[x]" ls rule: join.induct) simp_all

lemma concat_slices: "concat (map (\<lambda>k. take n (drop (n * k) xs)) [0 ..< m]) = take (n * m) xs"
proof (induction m)
  case 0
  show ?case by simp
next
  case (Suc m)
  have "n * Suc m = n * m + n"
    by simp
  then have "take (n * Suc m) xs = take (n * m) xs @ take n (drop (n * m) xs)"
    by (simp only: take_add)
  with Suc show ?case by simp
qed

lemma concat_lines:
  "concat (map (\<lambda>i. take 64 (drop i e)) (range64 (length e))) = e"
proof -
  have "concat (map (\<lambda>i. take 64 (drop i e)) (range64 (length e)))
      = concat (map (\<lambda>k. take 64 (drop (64 * k) e)) [0 ..< (length e + 63) div 64])"
    by (simp add: range64_def comp_def)
  also have "\<dots> = take (64 * ((length e + 63) div 64)) e"
    by (rule concat_slices)
  also have "\<dots> = e"
    by (rule take_all) arith
  finally show ?thesis .
qed

lemma lines_bounded:
  "l \<in> set (map (\<lambda>i. take 64 (drop i e)) (range64 (length e))) \<Longrightarrow> length l \<le> 64 \<and> l \<noteq> []"
proof -
  assume "l \<in> set (map (\<lambda>i. take 64 (drop i e)) (range64 (length e)))"
  then obtain k where k: "k < (length e + 63) div 64" and l: "l = take 64 (drop (64 * k) e)"
    by (auto simp: range64_def)
  from k have "64 * k < length e" by arith
  with l show ?thesis by simp
qed

lemma b64decode_multiline:
  "b64decode (join ''\<newline>'' (map (\<lambda>i. take 64 (drop i (b64encode s))) (range64 (length (b64encode s))))) = Inr s"
proof -
  let ?ls = "map (\<lambda>i. take 64 (drop i (b64encode s))) (range64 (length (b64encode s)))"
  have "a2b_base64 0 0 0 (join ''\<newline>'' ?ls)
      = a2b_base64 0 0 0 (filter (\<lambda>c. c \<noteq> CHR ''\<newline>'') (join ''\<newline>'' ?ls))"
    by (simp only: a2b_skips_newlines)
  also have "\<dots> = a2b_base64 0 0 0 (filter (\<lambda>c. c \<noteq> CHR ''\<newline>'') (concat ?ls))"
    by (simp only: filter_join)
  also have "\<dots> = a2b_base64 0 0 0 (b64encode s)"
    by (simp only: a2b_skips_newlines concat_lines)
  finally show ?thesis
    using b64decode_b64encode [of s] by (simp add: b64decode_def)
qed

text \<open>
  C6.  For the three base64 methods the encoder returns, without touching the random source,
  bytes that the matching standard decoder (\<open>b64decode\<close>, or \<open>urlsafe_b64decode\<close> for the
  url-safe method) turns back into the original content.  The multiline output is the
  standard base64 text cut into lines of at most 64 characters, joined by newlines.
\<close>

theorem base64_round_trip:
  assumes "method \<in> {BASE64, BASE64_MULTILINE, BASE64_URL_SAFE}"
  shows "\<exists>enc md. encode_file L content method pwd g = Inr ((enc, md), g)
     \<and> (if method = BASE64_URL_SAFE then urlsafe_b64decode enc else b64decode enc) = Inr content
     \<and> (method = BASE64_MULTILINE \<longrightarrow>
          (\<exists>lines. enc = join ''\<newline>'' lines \<and> concat lines = b64encode content
             \<and> (\<forall>l \<in> set lines. length l \<le> 64 \<and> l \<noteq> [])))"
proof -
  consider "method = BASE64" | "method = BASE64_MULTILINE" | "method = BASE64_URL_SAFE"
    using assms by auto
  then show ?thesis
  proof cases
    case 1
    then show ?thesis by (simp add: encode_file_def b64decode_b64encode)
  next
    case 2
    let ?ls = "map (\<lambda>i. take 64 (drop i (b64encode content))) (range64 (length (b64encode content)))"
    have "encode_file L content method pwd g
        = Inr ((join ''\<newline>'' ?ls, [(''encoding'', ''base64''), (''format'', ''multiline'')]), g)"
      using 2 by (simp add: encode_file_def Let_def)
    moreover have "b64decode (join ''\<newline>'' ?ls) = Inr content"
      by (rule b64decode_multiline)
    moreover have "concat ?ls = b64encode content"
      by (rule concat_lines)
    moreover have "\<forall>l \<in> set ?ls. length l \<le> 64 \<and> l \<noteq> []"
      using lines_bounded by blast
    ultimately have "encode_file L content method pwd g
          = Inr ((join ''\<newline>'' ?ls, [(''encoding'', ''base64''), (''format'', ''multiline'')]), g)
        \<and> b64decode (join ''\<newline>'' ?ls) = Inr content
        \<and> (\<exists>lines. join ''\<newline>'' ?ls = join ''\<newline>'' lines \<and> concat lines = b64encode content
             \<and> (\<forall>l \<in> set lines. length l \<le> 64 \<and> l \<noteq> []))"
      by blast
    then show ?thesis using 2 by simp
  next
    case 3
    then show ?thesis by (simp add: encode_file_def urlsafe_b64decode_urlsafe_b64encode)
  qed
qed

theorem base64_round_trip_witness:
  "BASE64_MULTILINE \<in> {BASE64, BASE64_MULTILINE, BASE64_URL_SAFE} \<and>
   (\<exists>enc md. encode_file example_crypto ''chaff'' BASE64_MULTILINE None example_rng
        = Inr ((enc, md), example_rng)
      \<and> b64decode enc = Inr ''chaff''
      \<and> (\<exists>lines. enc = join ''\<newline>'' lines \<and> concat lines = b64encode ''chaff''
            \<and> (\<forall>l \<in> set lines. length l \<le> 64 \<and> l \<noteq> [])))"
  using base64_round_trip [of BASE64_MULTILINE example_crypto "''chaff''" None example_rng]
  by simp


subsection \<open>Passwords and keys\<close>

lemma random_choice_Inr:
  "xs \<noteq> [] \<Longrightarrow> \<exists>x g'. random_choice xs g = Inr (x, g') \<and> x \<in> set xs"
  by (auto simp: random_choice_def split: prod.split)

lemma randint_Inr:
  "a \<le> b \<Longrightarrow> \<exists>n g'. randint a b g = Inr (n, g') \<and> a \<le> n \<and> n \<le> b"
proof -
  assume ab: "a \<le> b"
  obtain r g' where d: "draw g = (r, g')" by (cases "draw g")
  have "r mod (b - a + 1) < b - a + 1" by simp
  then have "a + r mod (b - a + 1) \<le> b" using ab by linarith
  with ab d show ?thesis by (simp add: randint_def)
qed

lemma secrets_chars_Inr:
  "chars \<noteq> [] \<Longrightarrow> \<exists>s g'. secrets_chars n chars g = Inr (s, g') \<and> length s = n"
proof (induction n arbitrary: g)
  case 0
  show ?case by simp
next
  case (Suc n)
  from random_choice_Inr [OF Suc.prems] obtain c g1 where c: "random_choice chars g = Inr (c, g1)"
    by blast
  from Suc.IH [OF Suc.prems] obtain s g2 where s: "secrets_chars n chars g1 = Inr (s, g2)" "length s = n"
    by blast
  from c s show ?case by simp
qed

lemma str_of_nat_nonempty: "str_of_nat n \<noteq> []"
  by (subst str_of_nat.simps) simp

lemma generate_password_Inr:
  "\<exists>pw g'. generate_password strength g = Inr (pw, g') \<and> pw \<noteq> []"
proof -
  consider (weak) "strength = ''weak''" | (medium) "strength = ''medium''"
    | (strong) "strength \<noteq> ''weak''" "strength \<noteq> ''medium''"
    by blast
  then show ?thesis
  proof cases
    case weak
    have "weak_passwords \<noteq> []" "[] \<notin> set weak_passwords"
      by (simp_all add: weak_passwords_def)
    with random_choice_Inr [of weak_passwords g] weak show ?thesis
      by (auto simp: generate_password_def)
  next
    case medium
    obtain word g1 where f1: "fake g = (word, g1)" by (cases "fake g")
    obtain n1 g2 where r1: "randint 10 99 g1 = Inr (n1, g2)"
      using randint_Inr [of 10 99 g1] by auto
    obtain first_name g3 where f2: "fake g2 = (first_name, g3)" by (cases "fake g2")
    obtain n2 g4 where r2: "randint 1980 2024 g3 = Inr (n2, g4)"
      using randint_Inr [of 1980 2024 g3] by auto
    obtain company g5 where f3: "fake g4 = (company, g5)" by (cases "fake g4")
    obtain n3 g6 where r3: "randint 1 99 g5 = Inr (n3, g6)"
      using randint_Inr [of 1 99 g5] by auto
    obtain city g7 where f4: "fake g6 = (city, g7)" by (cases "fake g6")
    obtain n4 g8 where r4: "randint 10 999 g7 = Inr (n4, g8)"
      using randint_Inr [of 10 999 g7] by auto
    let ?patterns = "[title word @ str_of_nat n1 @ ''!'', first_name @ str_of_nat n2,
        take 8 (replace '','' [] (replace '' '' [] company)) @ str_of_nat n3,
        replace '' '' [] city @ str_of_nat n4]"
    have ne: "[] \<notin> set ?patterns"
      by (simp add: str_of_nat_nonempty)
    obtain pw g' where pw: "random_choice ?patterns g8 = Inr (pw, g')" "pw \<in> set ?patterns"
      using random_choice_Inr [of ?patterns g8] by blast
    have "generate_password strength g = random_choice ?patterns g8"
      using medium f1 r1 f2 r2 f3 r3 f4 r4 by (simp add: generate_password_def)
    with pw ne show ?thesis by metis
  next
    case strong
    have "strong_chars \<noteq> []" by (simp add: strong_chars_def)
    from secrets_chars_Inr [OF this, of 16 g] obtain s g' where
      "secrets_chars 16 strong_chars g = Inr (s, g')" "length s = 16" by blast
    with strong show ?thesis by (auto simp: generate_password_def)
  qed
qed

lemma password_or_generate_Inr:
  "\<exists>pw g'. password_or_generate pwd strength g = Inr (pw, g') \<and> pw \<noteq> []
     \<and> (\<forall>p. pwd = Some p \<and> p \<noteq> [] \<longrightarrow> pw = p)"
  using generate_password_Inr [of strength g]
  by (auto simp: password_or_generate_def split: option.split)

lemma length_urandom: "urandom n g = (bs, g') \<Longrightarrow> length bs = n"
proof (induction n arbitrary: g bs g')
  case 0
  then show ?case by simp
next
  case (Suc n)
  obtain r g1 where d: "draw g = (r, g1)" by (cases "draw g")
  obtain cs g2 where u: "urandom n g1 = (cs, g2)" by (cases "urandom n g1")
  from Suc.prems d u have "bs = char_of r # cs" by simp
  with Suc.IH [OF u] show ?case by simp
qed

lemma Fernet_urlsafe: "length raw = 32 \<Longrightarrow> Fernet (urlsafe_b64encode raw) = Inr raw"
  by (simp add: Fernet_def urlsafe_b64decode_urlsafe_b64encode)

subsection \<open>The encoder\<close>

text \<open>
  C5.  The \<open>ZIP_ENCRYPTED\<close> branch always returns an AES archive written with deflate under
  the reported password.  For content of more than 100 bytes its entries are
  \<open>document.dat\<close> with the first \<open>n div 2\<close> bytes, \<open>metadata.txt\<close> with the rest (the
  two concatenate to the content) and the fixed \<open>checksum.md5\<close>; for content of at most
  100 bytes they are \<open>document.dat\<close> with the whole content and \<open>checksum.md5\<close>.
\<close>

theorem zip_encrypted_archive:
  "\<exists>pw entries r md g'.
     encode_file L content ZIP_ENCRYPTED pwd g
       = Inr ((aes_zip L ZIP_DEFLATED (encode_utf8 pw) entries r, md), g')
     \<and> map_of md ''password'' = Some pw
     \<and> (length content > 100 \<longrightarrow>
          entries = [(''document.dat'', take (length content div 2) content),
                     (''metadata.txt'', drop (length content div 2) content),
                     (''checksum.md5'', ''d41d8cd98f00b204e9800998ecf8427e'')]
          \<and> snd (entries ! 0) @ snd (entries ! 1) = content)
     \<and> (length content \<le> 100 \<longrightarrow>
          entries = [(''document.dat'', content),
                     (''checksum.md5'', ''d41d8cd98f00b204e9800998ecf8427e'')])"
proof -
  obtain pw g1 where pw: "password_or_generate pwd ''strong'' g = Inr (pw, g1)"
    using password_or_generate_Inr [of pwd "''strong''" g] by blast
  obtain r g2 where r: "draw g1 = (r, g2)" by (cases "draw g1")
  have "encode_file L content ZIP_ENCRYPTED pwd g
      = Inr ((aes_zip L ZIP_DEFLATED (encode_utf8 pw) (zip_encrypted_entries content) r,
              [(''compression'', ''zip''), (''encryption'', ''aes256''), (''password'', pw)]), g2)"
    using pw r by (simp add: encode_file_def)
  moreover have "length content > 100 \<longrightarrow>
      zip_encrypted_entries content = [(''document.dat'', take (length content div 2) content),
                     (''metadata.txt'', drop (length content div 2) content),
                     (''checksum.md5'', ''d41d8cd98f00b204e9800998ecf8427e'')]
      \<and> snd (zip_encrypted_entries content ! 0) @ snd (zip_encrypted_entries content ! 1) = content"
    by (simp add: zip_encrypted_entries_def)
  moreover have "length content \<le> 100 \<longrightarrow>
      zip_encrypted_entries content = [(''document.dat'', content),
                     (''checksum.md5'', ''d41d8cd98f00b204e9800998ecf8427e'')]"
    by (simp add: zip_encrypted_entries_def)
  moreover have "map_of [(''compression'', ''zip''), (''encryption'', ''aes256''), (''password'', pw)]
      ''password'' = Some pw"
    by simp
  ultimately show ?thesis by blast
qed


theorem zip_encrypted_archive_witness:
  "(100 < length (replicate 102 (CHR ''a'')) \<and>
    (\<exists>pw entries r md g'.
       encode_file example_crypto (replicate 102 (CHR ''a'')) ZIP_ENCRYPTED None example_rng
         = Inr ((aes_zip example_crypto ZIP_DEFLATED (encode_utf8 pw) entries r, md), g')
       \<and> entries = [(''document.dat'', replicate 51 (CHR ''a'')),
                      (''metadata.txt'', replicate 51 (CHR ''a'')),
                      (''checksum.md5'', ''d41d8cd98f00b204e9800998ecf8427e'')]))
   \<and> (length ''chaff'' \<le> 100 \<and>
    (\<exists>pw entries r md g'.
       encode_file example_crypto ''chaff'' ZIP_ENCRYPTED None example_rng
         = Inr ((aes_zip example_crypto ZIP_DEFLATED (encode_utf8 pw) entries r, md), g')
       \<and> entries = [(''document.dat'', ''chaff''),
                      (''checksum.md5'', ''d41d8cd98f00b204e9800998ecf8427e'')]))"
proof -
  have big: "100 < length (replicate 102 (CHR ''a''))" and small: "length ''chaff'' \<le> 100"
    by simp_all
  have halves: "take (length (replicate 102 (CHR ''a'')) div 2) (replicate 102 (CHR ''a''))
        = replicate 51 (CHR ''a'')"
      "drop (length (replicate 102 (CHR ''a'')) div 2) (replicate 102 (CHR ''a''))
        = replicate 51 (CHR ''a'')"
    by simp_all
  show ?thesis
    using zip_encrypted_archive [of example_crypto "replicate 102 (CHR ''a'')" None example_rng]
      zip_encrypted_archive [of example_crypto "''chaff''" None example_rng] big small
    unfolding halves by blast
qed

text \<open>
  C4.  Let the key derivation return as many bytes as it is asked for, and let \<open>Fernet\<close>
  decryption invert encryption under the same 32-byte key.  Then the \<open>ENCRYPTED_FERNET\<close>
  branch always returns a 16-byte salt followed by the token of the content under the key
  derived by PBKDF2-HMAC-SHA256 (32 bytes, 100000 iterations) from the reported password
  and that salt; the reported password is the supplied one when a non-empty one is
  supplied; the reported salt is the base64 text of the salt; and decryption with the key
  derived again from the reported password and the decoded reported salt, as well as the
  companion decoder on the encoded bytes, gives back the content.
\<close>

theorem fernet_round_trip:
  assumes kdf: "\<forall>alg n s it p. length (pbkdf2_hmac L alg n s it p) = n"
    and fernet: "\<forall>k now iv d. length k = 32 \<and> length iv = 16 \<longrightarrow>
                   fernet_open L k (fernet_token L k now iv d) = Inr d"
  shows "\<exists>pw salt16 now iv md g' reported_salt.
     encode_file L content ENCRYPTED_FERNET pwd g
       = Inr ((salt16 @ fernet_token L (pbkdf2_hmac L SHA256 32 salt16 100000 (encode_utf8 pw))
                          now iv content, md), g')
     \<and> length salt16 = 16
     \<and> map_of md ''password'' = Some pw
     \<and> (\<forall>p. pwd = Some p \<and> p \<noteq> [] \<longrightarrow> pw = p)
     \<and> map_of md ''salt'' = Some reported_salt
     \<and> b64decode reported_salt = Inr salt16
     \<and> fernet_open L (pbkdf2_hmac L SHA256 32 salt16 100000 (encode_utf8 pw))
           (fernet_token L (pbkdf2_hmac L SHA256 32 salt16 100000 (encode_utf8 pw)) now iv content)
         = Inr content
     \<and> decode_encrypted_file L
           (salt16 @ fernet_token L (pbkdf2_hmac L SHA256 32 salt16 100000 (encode_utf8 pw))
                      now iv content) pw
         = Inr content"
proof -
  obtain pw g1 where pw: "password_or_generate pwd ''medium'' g = Inr (pw, g1)"
    and supplied: "\<forall>p. pwd = Some p \<and> p \<noteq> [] \<longrightarrow> pw = p"
    using password_or_generate_Inr [of pwd "''medium''" g] by blast
  obtain salt16 g2 where s: "urandom 16 g1 = (salt16, g2)" by (cases "urandom 16 g1")
  have ls: "length salt16 = 16" using length_urandom [OF s] .
  let ?raw = "pbkdf2_hmac L SHA256 32 salt16 100000 (encode_utf8 pw)"
  have lr: "length ?raw = 32" using kdf by simp
  have F: "Fernet (urlsafe_b64encode ?raw) = Inr ?raw"
    using lr by (rule Fernet_urlsafe)
  obtain now g3 where n: "draw g2 = (now, g3)" by (cases "draw g2")
  obtain iv g4 where i: "urandom 16 g3 = (iv, g4)" by (cases "urandom 16 g3")
  have li: "length iv = 16" using length_urandom [OF i] .
  let ?tok = "fernet_token L ?raw now iv content"
  let ?md = "[(''encryption'', ''fernet''), (''password'', pw), (''salt'', b64encode salt16)]"
  have enc: "encode_file L content ENCRYPTED_FERNET pwd g = Inr ((salt16 @ ?tok, ?md), g4)"
    using pw s F n i by (simp add: encode_file_def fernet_encrypt_def Let_def)
  have opn: "fernet_open L ?raw ?tok = Inr content"
    using fernet lr li by simp
  have dec: "decode_encrypted_file L (salt16 @ ?tok) pw = Inr content"
    using ls F opn by (simp add: decode_encrypted_file_def Let_def)
  have md: "map_of ?md ''password'' = Some pw" "map_of ?md ''salt'' = Some (b64encode salt16)"
    by simp_all
  have "b64decode (b64encode salt16) = Inr salt16"
    by (rule b64decode_b64encode)
  with enc ls md supplied opn dec show ?thesis by blast
qed


theorem fernet_round_trip_witness:
  "(\<exists>pw salt16 now iv md g'.
         encode_file example_crypto ''chaff'' ENCRYPTED_FERNET (Some ''Reed1987'') example_rng
           = Inr ((salt16 @ fernet_token example_crypto
                     (pbkdf2_hmac example_crypto SHA256 32 salt16 100000 (encode_utf8 pw))
                     now iv ''chaff'', md), g')
         \<and> length salt16 = 16 \<and> pw = ''Reed1987''
         \<and> decode_encrypted_file example_crypto
               (salt16 @ fernet_token example_crypto
                     (pbkdf2_hmac example_crypto SHA256 32 salt16 100000 (encode_utf8 pw))
                     now iv ''chaff'') pw
             = Inr ''chaff'')"
proof -
  have kdf: "\<forall>alg n s it p. length (pbkdf2_hmac example_crypto alg n s it p) = n"
    by (simp add: example_crypto_def)
  have fernet: "\<forall>k now iv d. length k = 32 \<and> length iv = 16 \<longrightarrow>
      fernet_open example_crypto k (fernet_token example_crypto k now iv d) = Inr d"
    by (simp add: example_crypto_def)
  from fernet_round_trip [OF kdf fernet, of "''chaff''" "Some ''Reed1987''" example_rng]
  obtain pw salt16 now iv md g' where
    e: "encode_file example_crypto ''chaff'' ENCRYPTED_FERNET (Some ''Reed1987'') example_rng
           = Inr ((salt16 @ fernet_token example_crypto
                     (pbkdf2_hmac example_crypto SHA256 32 salt16 100000 (encode_utf8 pw))
                     now iv ''chaff'', md), g')"
    and l: "length salt16 = 16"
    and p: "\<forall>p. Some ''Reed1987'' = Some p \<and> p \<noteq> [] \<longrightarrow> pw = p"
    and d: "decode_encrypted_file example_crypto
               (salt16 @ fernet_token example_crypto
                     (pbkdf2_hmac example_crypto SHA256 32 salt16 100000 (encode_utf8 pw))
                     now iv ''chaff'') pw
             = Inr ''chaff''"
    by (elim exE conjE) (rule that; assumption)
  from p have q: "pw = ''Reed1987''"
    by simp
  show ?thesis
  proof (intro exI conjI)
    show "encode_file example_crypto ''chaff'' ENCRYPTED_FERNET (Some ''Reed1987'') example_rng
           = Inr ((salt16 @ fernet_token example_crypto
                     (pbkdf2_hmac example_crypto SHA256 32 salt16 100000 (encode_utf8 pw))
                     now iv ''chaff'', md), g')"
      by (rule e)
    show "length salt16 = 16" by (rule l)
    show "pw = ''Reed1987''" by (rule q)
    show "decode_encrypted_file example_crypto
               (salt16 @ fernet_token example_crypto
                     (pbkdf2_hmac example_crypto SHA256 32 salt16 100000 (encode_utf8 pw))
                     now iv ''chaff'') pw
             = Inr ''chaff''"
      by (rule d)
  qed
qed


subsection \<open>The reference passes\<close>

subsection \<open>What a pass emits\<close>

lemma for_each_emits:
  assumes "\<And>x g. x \<in> set xs \<Longrightarrow> \<forall>r \<in> set (fst (body x g)). P r"
  shows "\<forall>r \<in> set (fst (for_each body xs g)). P r"
  using assms
proof (induction xs arbitrary: g)
  case Nil
  show ?case by simp
next
  case (Cons x xs)
  obtain rs out where b: "body x g = (rs, out)" by (cases "body x g")
  have rs: "\<forall>r \<in> set rs. P r"
    using Cons.prems [of x g] b by simp
  show ?case
  proof (cases out)
    case (Inl e)
    with b rs show ?thesis by simp
  next
    case (Inr g1)
    obtain rs' out' where f: "for_each body xs g1 = (rs', out')" by (cases "for_each body xs g1")
    have "\<forall>r \<in> set (fst (for_each body xs g1)). P r"
    proof (rule Cons.IH)
      fix y g' assume "y \<in> set xs"
      then show "\<forall>r \<in> set (fst (body y g')). P r"
        using Cons.prems [of y g'] by simp
    qed
    with f have "\<forall>r \<in> set rs'. P r" by simp
    with b Inr f rs show ?thesis by auto
  qed
qed

lemma then_pass_emits:
  assumes "\<forall>r \<in> set (fst a). P r" and "\<And>g. \<forall>r \<in> set (fst (p g)). P r"
  shows "\<forall>r \<in> set (fst (then_pass a p)). P r"
proof -
  obtain rs out where a: "a = (rs, out)" by (cases a)
  show ?thesis
  proof (cases out)
    case (Inl e)
    with a assms(1) show ?thesis by (simp add: then_pass_def)
  next
    case (Inr g)
    obtain rs' out' where p: "p g = (rs', out')" by (cases "p g")
    with assms(2) [of g] have "\<forall>r \<in> set rs'. P r" by simp
    with a Inr p assms(1) show ?thesis by (auto simp: then_pass_def)
  qed
qed

lemma pick_subset: "set (fst (pick k xs g)) \<subseteq> set xs"
proof (induction k arbitrary: xs g)
  case 0
  show ?case by simp
next
  case (Suc k)
  show ?case
  proof (cases "xs = []")
    case True
    then show ?thesis by simp
  next
    case False
    obtain r g1 where d: "draw g = (r, g1)" by (cases "draw g")
    let ?i = "r mod length xs"
    let ?rest = "take ?i xs @ drop (Suc ?i) xs"
    obtain ys g2 where p: "pick k ?rest g1 = (ys, g2)" by (cases "pick k ?rest g1")
    have "set ys \<subseteq> set ?rest" using Suc.IH [of ?rest g1] p by simp
    moreover have "set ?rest \<subseteq> set xs"
      using set_take_subset [of ?i xs] set_drop_subset [of "Suc ?i" xs] by auto
    moreover have "xs ! ?i \<in> set xs" using False by simp
    ultimately show ?thesis using False d p by (auto simp: Let_def)
  qed
qed

lemma random_sample_subset: "random_sample xs k g = Inr (ys, g') \<Longrightarrow> set ys \<subseteq> set xs"
  using pick_subset [of k xs g] by (auto simp: random_sample_def split: if_splits)

lemma sample_between_subset: "sample_between lo hi xs g = Inr (ys, g') \<Longrightarrow> set ys \<subseteq> set xs"
  by (auto simp: sample_between_def split: sum.splits dest: random_sample_subset)

lemma random_choice_mem: "random_choice xs g = Inr (x, g') \<Longrightarrow> x \<in> set xs"
  by (auto simp: random_choice_def split: if_splits prod.splits)

lemma for_each_cases:
  assumes "r \<in> set (fst (for_each body xs g))"
  obtains x g' where "x \<in> set xs" "r \<in> set (fst (body x g'))"
proof -
  have "\<forall>r \<in> set (fst (for_each body xs g)). \<exists>x \<in> set xs. \<exists>g'. r \<in> set (fst (body x g'))"
    by (rule for_each_emits) blast
  with assms that show thesis by blast
qed

lemma then_pass_cases:
  assumes "r \<in> set (fst (then_pass a p))"
  obtains "r \<in> set (fst a)" | g where "r \<in> set (fst (p g))"
proof -
  have "\<forall>r \<in> set (fst (then_pass a p)). r \<in> set (fst a) \<or> (\<exists>g. r \<in> set (fst (p g)))"
    by (rule then_pass_emits) blast+
  with assms that show thesis by blast
qed

lemma email_attachments_emit:
  assumes "r \<in> set (fst (create_email_attachments emails other_files g))"
  shows "\<exists>e \<in> set emails. \<exists>a \<in> set other_files.
           (source_file r = filename e \<and> target_file r = filename a)
         \<or> (source_file r = filename a \<and> target_file r = filename e)"
  using assms unfolding create_email_attachments_def
  by (fastforce elim!: for_each_cases split: if_splits sum.splits prod.splits
        dest!: sample_between_subset)

lemma document_image_embeddings_emit:
  assumes "r \<in> set (fst (create_document_image_embeddings documents images g))"
  shows "\<exists>d \<in> set documents. \<exists>i \<in> set images.
           source_file r = filename d \<and> target_file r = filename i"
  using assms unfolding create_document_image_embeddings_def
  by (fastforce elim!: for_each_cases split: if_splits sum.splits prod.splits
        dest!: sample_between_subset)

lemma document_references_emit:
  assumes "r \<in> set (fst (create_document_references documents g))"
  shows "\<exists>d \<in> set documents. \<exists>d' \<in> set documents. filename d' \<noteq> filename d \<and>
           source_file r = filename d \<and> target_file r = filename d'"
  using assms unfolding create_document_references_def
  by (fastforce elim!: for_each_cases split: if_splits sum.splits prod.splits
        dest!: sample_between_subset simp: Let_def)

lemma spreadsheet_references_emit:
  assumes "r \<in> set (fst (create_spreadsheet_references spreadsheets other_files g))"
  shows "\<exists>s \<in> set spreadsheets. \<exists>t \<in> set other_files.
           source_file r = filename s \<and> target_file r = filename t"
  using assms unfolding create_spreadsheet_references_def
  by (fastforce elim!: for_each_cases split: if_splits sum.splits prod.splits
        dest!: sample_between_subset)

lemma password_references_emit:
  assumes "r \<in> set (fst (create_password_references efs files g))"
  shows "\<exists>c \<in> set files. \<exists>p \<in> set files. filename c \<noteq> filename p \<and>
           source_file r = filename c \<and> target_file r = filename p"
  using assms unfolding create_password_references_def
  by (fastforce elim!: for_each_cases split: if_splits sum.splits prod.splits
        dest!: random_choice_mem simp: Let_def)

lemma backup_references_emit:
  assumes "r \<in> set (fst (create_backup_references documents spreadsheets g))"
  shows "\<exists>d \<in> set documents. \<exists>s \<in> set spreadsheets.
           source_file r = filename d \<and> target_file r = filename s"
  using assms unfolding create_backup_references_def
  by (fastforce elim!: for_each_cases split: if_splits sum.splits prod.splits
        dest!: random_choice_mem in_set_takeD)

lemma data_references_emit:
  assumes "r \<in> set (fst (create_data_references spreadsheets documents g))"
  shows "\<exists>s \<in> set spreadsheets. \<exists>d \<in> set documents.
           source_file r = filename s \<and> target_file r = filename d"
  using assms unfolding create_data_references_def
  by (fastforce elim!: for_each_cases split: if_splits sum.splits prod.splits
        dest!: random_choice_mem in_set_takeD)

subsection \<open>Dictionaries of lists\<close>

lemma dict_values_Cons: "dict_values ((k, vs) # d) = set vs \<union> dict_values d"
  by (simp add: dict_values_def)

lemma dict_values_Nil: "dict_values [] = {}"
  by (simp add: dict_values_def)

lemma dict_values_append: "dict_values (dict_append k v d) = insert v (dict_values d)"
  by (induction k v d rule: dict_append.induct) (auto simp: dict_values_Cons dict_values_Nil)

lemma dict_values_mem: "(k, vs) \<in> set d \<Longrightarrow> set vs \<subseteq> dict_values d"
  by (auto simp: dict_values_def)

lemma assign_projects_values:
  "assign_projects files d g = Inr (d', g') \<Longrightarrow> dict_values d' \<subseteq> dict_values d \<union> set files"
proof (induction files arbitrary: d g)
  case Nil
  then show ?case by simp
next
  case (Cons f0 rest)
  obtain h g1 where h: "random_random g = (h, g1)" by (cases "random_random g")
  show ?case
  proof (cases "h < 70")
    case True
    with Cons.prems h obtain project g2 where
      c: "random_choice project_names g1 = Inr (project, g2)"
      and r: "assign_projects rest (dict_append project f0 d) g2 = Inr (d', g')"
      by (auto split: sum.splits)
    from Cons.IH [OF r] show ?thesis by (auto simp: dict_values_append)
  next
    case False
    with Cons.prems h have "assign_projects rest d g1 = Inr (d', g')" by simp
    from Cons.IH [OF this] show ?thesis by auto
  qed
qed

lemma project_references_emit:
  assumes "r \<in> set (fst (create_project_references all_files g))"
  shows "\<exists>f \<in> set all_files. \<exists>f' \<in> set all_files. filename f' \<noteq> filename f \<and>
           source_file r = filename f \<and> target_file r = filename f'"
proof (cases "assign_projects all_files [] g")
  case (Inl e)
  with assms show ?thesis by (simp add: create_project_references_def)
next
  case (Inr res)
  obtain d g1 where res: "res = (d, g1)" by (cases res)
  have "dict_values d \<subseteq> set all_files"
    using assign_projects_values [of all_files "[]" g d g1] Inr res by (simp add: dict_values_Nil)
  then have sub: "\<And>k vs. (k, vs) \<in> set d \<Longrightarrow> set vs \<subseteq> set all_files"
    using dict_values_mem by fastforce
  from assms Inr res obtain project files g2 where
    m: "(project, files) \<in> set d" and
    r: "r \<in> set (fst (if length files > 1 then
              for_each (\<lambda>file g3.
                let other_project_files = filter (\<lambda>f. filename f \<noteq> filename file) files in
                if other_project_files \<noteq> [] then
                  (case sample_between 1 2 other_project_files g3 of
                     Inl e \<Rightarrow> ([], Inl e)
                   | Inr (referenced, g4) \<Rightarrow>
                       for_each (\<lambda>ref_file g5.
                         ([\<lparr>source_file = filename file, target_file = filename ref_file,
                            reference_type = ''project_reference'',
                            context_str = ''Project '' @ project @ '' file: '' @ filename ref_file\<rparr>],
                          Inr g5)) referenced g4)
                else ([], Inr g3)) files g2
            else ([], Inr g2)))"
    by (auto simp: create_project_references_def elim!: for_each_cases)
  from r have "\<exists>f \<in> set files. \<exists>f' \<in> set files. filename f' \<noteq> filename f \<and>
           source_file r = filename f \<and> target_file r = filename f'"
    by (fastforce elim!: for_each_cases split: if_splits sum.splits prod.splits
          dest!: sample_between_subset simp: Let_def)
  with sub [OF m] show ?thesis by blast
qed

lemma base_names_values: "dict_values (foldl (\<lambda>d x. dict_append (kf x) x d) d0 files)
    = dict_values d0 \<union> set files"
  by (induction files arbitrary: d0) (auto simp: dict_values_append)

lemma version_references_emit:
  assumes "r \<in> set (fst (create_version_references all_files g))"
  shows "\<exists>f \<in> set all_files. \<exists>f' \<in> set all_files. filename f' \<noteq> filename f \<and>
           source_file r = filename f \<and> target_file r = filename f'"
proof -
  have "dict_values (base_names_of all_files) = set all_files"
    unfolding base_names_of_def by (simp add: base_names_values dict_values_Nil)
  then have sub: "\<And>k vs. (k, vs) \<in> set (base_names_of all_files) \<Longrightarrow> set vs \<subseteq> set all_files"
    using dict_values_mem by fastforce
  from assms obtain base_name files g2 where
    m: "(base_name, files) \<in> set (base_names_of all_files)" and
    r: "r \<in> set (fst (if length files > 1 then
         for_each (\<lambda>file g1.
           for_each (\<lambda>other_file g2.
             case random_choice (version_contexts other_file) g2 of
               Inl e \<Rightarrow> ([], Inl e)
             | Inr (ctx, g3) \<Rightarrow>
                 ([\<lparr>source_file = filename file, target_file = filename other_file,
                    reference_type = ''version_reference'', context_str = ctx\<rparr>],
                  Inr g3))
             (filter (\<lambda>f. filename f \<noteq> filename file) files) g1) files g2
       else ([], Inr g2)))"
    by (auto simp: create_version_references_def elim!: for_each_cases)
  from r have "\<exists>f \<in> set files. \<exists>f' \<in> set files. filename f' \<noteq> filename f \<and>
           source_file r = filename f \<and> target_file r = filename f'"
    by (fastforce elim!: for_each_cases split: if_splits sum.splits prod.splits)
  with sub [OF m] show ?thesis by blast
qed

lemma distinct_names_fix_types: "distinct (map filename plans) \<Longrightarrow> names_fix_types plans"
  by (auto simp: names_fix_types_def distinct_map inj_on_def)

lemma kinds_apart:
  assumes "names_fix_types plans" "p \<in> set plans" "q \<in> set plans" "file_type p \<noteq> file_type q"
  shows "filename p \<noteq> filename q"
  using assms unfolding names_fix_types_def by blast

lemma partition_facts:
  "p \<in> set (emails_of plans) \<longleftrightarrow> p \<in> set plans \<and> file_type p = ''eml''"
  "p \<in> set (documents_of plans) \<longleftrightarrow> p \<in> set plans \<and> file_type p \<in> {''pdf'', ''docx'', ''txt''}"
  "p \<in> set (spreadsheets_of plans) \<longleftrightarrow> p \<in> set plans \<and> file_type p \<in> {''xlsx'', ''csv''}"
  "p \<in> set (images_of plans) \<longleftrightarrow> p \<in> set plans \<and> file_type p \<in> {''jpg'', ''png''}"
  by (auto simp: emails_of_def documents_of_def spreadsheets_of_def images_of_def)

text \<open>
  C2.  Let equal file names in the plan set go with equal file types (as they do when names
  are unique, and when a name ends in its file type).  Then every reference that the nine
  passes append, also before a pass raises, has a source different from its target, and
  both are file names of plans of the plan set.
\<close>

theorem references_well_formed:
  assumes "names_fix_types plans"
  shows "\<forall>r \<in> set (fst (create_references efs plans g)).
           source_file r \<noteq> target_file r
           \<and> source_file r \<in> filename ` set plans \<and> target_file r \<in> filename ` set plans"
proof
  fix r
  assume "r \<in> set (fst (create_references efs plans g))"
  then consider
      (email) g1 where "r \<in> set (fst (create_email_attachments (emails_of plans)
          (documents_of plans @ spreadsheets_of plans @ images_of plans) g1))"
    | (image) g1 where "r \<in> set (fst (create_document_image_embeddings (documents_of plans)
          (images_of plans) g1))"
    | (document) g1 where "r \<in> set (fst (create_document_references (documents_of plans) g1))"
    | (spreadsheet) g1 where "r \<in> set (fst (create_spreadsheet_references (spreadsheets_of plans)
          (documents_of plans @ images_of plans) g1))"
    | (pass) g1 where "r \<in> set (fst (create_password_references efs plans g1))"
    | (backup) g1 where "r \<in> set (fst (create_backup_references (documents_of plans)
          (spreadsheets_of plans) g1))"
    | (data) g1 where "r \<in> set (fst (create_data_references (spreadsheets_of plans)
          (documents_of plans) g1))"
    | (project) g1 where "r \<in> set (fst (create_project_references plans g1))"
    | (version) g1 where "r \<in> set (fst (create_version_references plans g1))"
    unfolding create_references_def Let_def by (elim then_pass_cases) blast+
  then show "source_file r \<noteq> target_file r
           \<and> source_file r \<in> filename ` set plans \<and> target_file r \<in> filename ` set plans"
  proof cases
    case email
    from email_attachments_emit [OF email] obtain e a where
      e: "e \<in> set plans" "file_type e = ''eml''" and
      a: "a \<in> set plans" "file_type a \<noteq> ''eml''" and
      r: "(source_file r = filename e \<and> target_file r = filename a)
         \<or> (source_file r = filename a \<and> target_file r = filename e)"
      by (auto simp: partition_facts)
    from kinds_apart [OF assms e(1) a(1)] e a have "filename e \<noteq> filename a" by simp
    with e a r show ?thesis by auto
  next
    case image
    from document_image_embeddings_emit [OF image] obtain d i where
      d: "d \<in> set plans" "file_type d \<in> {''pdf'', ''docx'', ''txt''}" and
      i: "i \<in> set plans" "file_type i \<in> {''jpg'', ''png''}" and
      r: "source_file r = filename d" "target_file r = filename i"
      by (auto simp: partition_facts)
    from d i have "file_type d \<noteq> file_type i" by auto
    from kinds_apart [OF assms d(1) i(1) this] d i r show ?thesis by auto
  next
    case document
    from document_references_emit [OF document] show ?thesis
      by (auto simp: partition_facts)
  next
    case spreadsheet
    from spreadsheet_references_emit [OF spreadsheet] obtain s t where
      s: "s \<in> set plans" "file_type s \<in> {''xlsx'', ''csv''}" and
      t: "t \<in> set plans" "file_type t \<in> {''pdf'', ''docx'', ''txt'', ''jpg'', ''png''}" and
      r: "source_file r = filename s" "target_file r = filename t"
      by (auto simp: partition_facts)
    from s t have "file_type s \<noteq> file_type t" by auto
    from kinds_apart [OF assms s(1) t(1) this] s t r show ?thesis by auto
  next
    case pass
    from password_references_emit [OF pass] show ?thesis by auto
  next
    case backup
    from backup_references_emit [OF backup] obtain d s where
      d: "d \<in> set plans" "file_type d \<in> {''pdf'', ''docx'', ''txt''}" and
      s: "s \<in> set plans" "file_type s \<in> {''xlsx'', ''csv''}" and
      r: "source_file r = filename d" "target_file r = filename s"
      by (auto simp: partition_facts)
    from d s have "file_type d \<noteq> file_type s" by auto
    from kinds_apart [OF assms d(1) s(1) this] d s r show ?thesis by auto
  next
    case data
    from data_references_emit [OF data] obtain s d where
      d: "d \<in> set plans" "file_type d \<in> {''pdf'', ''docx'', ''txt''}" and
      s: "s \<in> set plans" "file_type s \<in> {''xlsx'', ''csv''}" and
      r: "source_file r = filename s" "target_file r = filename d"
      by (auto simp: partition_facts)
    from d s have "file_type s \<noteq> file_type d" by auto
    from kinds_apart [OF assms s(1) d(1) this] d s r show ?thesis by auto
  next
    case project
    from project_references_emit [OF project] show ?thesis by auto
  next
    case version
    from version_references_emit [OF version] show ?thesis by auto
  qed
qed

theorem references_well_formed_witness:
  "names_fix_types example_plans
   \<and> fst (create_references [] example_plans example_rng) \<noteq> []
   \<and> list_all (\<lambda>r. source_file r \<noteq> target_file r
           \<and> source_file r \<in> filename ` set example_plans
           \<and> target_file r \<in> filename ` set example_plans)
        (fst (create_references [] example_plans example_rng))"
proof -
  have h: "names_fix_types example_plans"
    by (simp add: names_fix_types_def example_plans_def)
  have n: "fst (create_references [] example_plans example_rng) \<noteq> []"
    by code_simp
  from references_well_formed [OF h, of "[]" example_rng] h n show ?thesis
    by (simp add: list_all_iff)
qed


subsection \<open>Passes that do not raise\<close>

lemma for_each_returns:
  assumes "\<And>x g. x \<in> set xs \<Longrightarrow> \<exists>g'. snd (body x g) = Inr g'"
  shows "\<exists>g'. snd (for_each body xs g) = Inr g'"
  using assms
proof (induction xs arbitrary: g)
  case Nil
  show ?case by simp
next
  case (Cons x xs)
  obtain rs g1 where b: "body x g = (rs, Inr g1)"
    using Cons.prems [of x g] by (cases "body x g") auto
  have "\<exists>g'. snd (for_each body xs g1) = Inr g'"
  proof (rule Cons.IH)
    fix y g' assume "y \<in> set xs"
    then show "\<exists>g''. snd (body y g') = Inr g''"
      using Cons.prems [of y g'] by simp
  qed
  with b show ?case by (auto split: prod.splits)
qed

lemma for_each_covers:
  assumes "\<And>x g. x \<in> set xs \<Longrightarrow> \<exists>g'. snd (body x g) = Inr g'" and "x \<in> set xs"
  shows "\<exists>g'. set (fst (body x g')) \<subseteq> set (fst (for_each body xs g))"
  using assms
proof (induction xs arbitrary: g)
  case Nil
  then show ?case by simp
next
  case (Cons y ys)
  obtain rs g1 where b: "body y g = (rs, Inr g1)"
    using Cons.prems(1) [of y g] by (cases "body y g") auto
  obtain rs' out where f: "for_each body ys g1 = (rs', out)" by (cases "for_each body ys g1")
  show ?case
  proof (cases "x = y")
    case True
    have "set (fst (body x g)) \<subseteq> set (fst (for_each body (y # ys) g))"
      using True b f by simp
    then show ?thesis by blast
  next
    case False
    with Cons.prems(2) have x: "x \<in> set ys" by simp
    have "\<exists>g'. set (fst (body x g')) \<subseteq> set (fst (for_each body ys g1))"
    proof (rule Cons.IH)
      fix z g' assume "z \<in> set ys"
      then show "\<exists>g''. snd (body z g') = Inr g''"
        using Cons.prems(1) [of z g'] by simp
    qed (rule x)
    then obtain g' where "set (fst (body x g')) \<subseteq> set rs'" using f by auto
    then have "set (fst (body x g')) \<subseteq> set (fst (for_each body (y # ys) g))"
      using b f by auto
    then show ?thesis by blast
  qed
qed

subsection \<open>Groups of a dictionary of lists\<close>

lemma dict_append_keys: "fst ` set (dict_append k v d) = insert k (fst ` set d)"
  by (induction k v d rule: dict_append.induct) auto

lemma dict_append_distinct:
  "distinct (map fst d) \<Longrightarrow> distinct (map fst (dict_append k v d))"
proof (induction k v d rule: dict_append.induct)
  case (1 k v)
  show ?case by simp
next
  case (2 k v k' vs d)
  then show ?case
    using dict_append_keys [of k v d] by (auto simp: image_iff)
qed

lemma dict_append_new: "\<exists>vs. (k, vs) \<in> set (dict_append k v d) \<and> v \<in> set vs"
  by (induction k v d rule: dict_append.induct) auto

lemma dict_append_keeps:
  "(k', vs) \<in> set d \<Longrightarrow> \<exists>vs'. (k', vs') \<in> set (dict_append k v d) \<and> set vs \<subseteq> set vs'"
  by (induction k v d rule: dict_append.induct) auto

lemma grouped_distinct:
  "distinct (map fst d0) \<Longrightarrow> distinct (map fst (foldl (\<lambda>d x. dict_append (kf x) x d) d0 xs))"
  by (induction xs arbitrary: d0) (auto intro: dict_append_distinct)

lemma grouped_keeps:
  "(k, vs) \<in> set d0 \<Longrightarrow>
     \<exists>vs'. (k, vs') \<in> set (foldl (\<lambda>d x. dict_append (kf x) x d) d0 xs) \<and> set vs \<subseteq> set vs'"
proof (induction xs arbitrary: d0 vs)
  case Nil
  then show ?case by auto
next
  case (Cons x xs)
  from dict_append_keeps [OF Cons.prems, of "kf x" x] obtain vs1 where
    m: "(k, vs1) \<in> set (dict_append (kf x) x d0)" and s: "set vs \<subseteq> set vs1" by blast
  from Cons.IH [OF m] s show ?case by fastforce
qed

lemma grouped_member:
  "x \<in> set xs \<Longrightarrow>
     \<exists>vs. (kf x, vs) \<in> set (foldl (\<lambda>d x. dict_append (kf x) x d) d0 xs) \<and> x \<in> set vs"
proof (induction xs arbitrary: d0)
  case Nil
  then show ?case by simp
next
  case (Cons y ys)
  show ?case
  proof (cases "x = y")
    case True
    from dict_append_new [of "kf y" y d0] obtain vs where
      "(kf y, vs) \<in> set (dict_append (kf y) y d0)" "y \<in> set vs" by blast
    with grouped_keeps [of "kf y" vs "dict_append (kf y) y d0" kf ys] True show ?thesis
      by fastforce
  next
    case False
    with Cons.prems have "x \<in> set ys" by simp
    from Cons.IH [OF this] show ?thesis by simp
  qed
qed

lemma same_group:
  assumes "p \<in> set plans" "q \<in> set plans"
    and "base_name_of (filename p) = base_name_of (filename q)"
  shows "\<exists>files. (base_name_of (filename p), files) \<in> set (base_names_of plans)
           \<and> p \<in> set files \<and> q \<in> set files"
proof -
  let ?kf = "\<lambda>f. base_name_of (filename f)"
  have d: "distinct (map fst (base_names_of plans))"
    unfolding base_names_of_def by (rule grouped_distinct) simp
  from grouped_member [OF assms(1), of ?kf "[]"] obtain fs where
    fs: "(?kf p, fs) \<in> set (base_names_of plans)" "p \<in> set fs"
    unfolding base_names_of_def by blast
  from grouped_member [OF assms(2), of ?kf "[]"] obtain fs' where
    fs': "(?kf q, fs') \<in> set (base_names_of plans)" "q \<in> set fs'"
    unfolding base_names_of_def by blast
  from eq_key_imp_eq_value [OF d fs(1)] fs'(1) assms(3) have "fs = fs'" by simp
  with fs fs' show ?thesis by blast
qed

lemma two_members: "x \<in> set xs \<Longrightarrow> y \<in> set xs \<Longrightarrow> x \<noteq> y \<Longrightarrow> 1 < length xs"
  by (cases xs; cases "tl xs") auto

lemma version_edge_body:
  "\<exists>ctx g'. random_choice (version_contexts other_file) g = Inr (ctx, g')
      \<and> ctx \<in> set (version_contexts other_file)"
  using random_choice_Inr [of "version_contexts other_file" g]
  by (simp add: version_contexts_def)

lemma version_others_return:
  "\<exists>g'. snd (for_each (\<lambda>other_file g2.
             case random_choice (version_contexts other_file) g2 of
               Inl e \<Rightarrow> ([], Inl e)
             | Inr (ctx, g3) \<Rightarrow>
                 ([\<lparr>source_file = src, target_file = filename other_file,
                    reference_type = ''version_reference'', context_str = ctx\<rparr>],
                  Inr g3)) others g) = Inr g'"
proof (rule for_each_returns)
  fix x g0
  from version_edge_body [of x g0] obtain ctx g' where
    "random_choice (version_contexts x) g0 = Inr (ctx, g')" by blast
  then show "\<exists>g'. snd (case random_choice (version_contexts x) g0 of
               Inl e \<Rightarrow> ([], Inl e)
             | Inr (ctx, g3) \<Rightarrow>
                 ([\<lparr>source_file = src, target_file = filename x,
                    reference_type = ''version_reference'', context_str = ctx\<rparr>],
                  Inr g3)) = Inr g'"
    by simp
qed

lemma version_files_return:
  "\<exists>g'. snd (for_each (\<lambda>file g1.
           for_each (\<lambda>other_file g2.
             case random_choice (version_contexts other_file) g2 of
               Inl e \<Rightarrow> ([], Inl e)
             | Inr (ctx, g3) \<Rightarrow>
                 ([\<lparr>source_file = filename file, target_file = filename other_file,
                    reference_type = ''version_reference'', context_str = ctx\<rparr>],
                  Inr g3))
             (filter (\<lambda>f. filename f \<noteq> filename file) files) g1) files g) = Inr g'"
  by (rule for_each_returns) (rule version_others_return)

lemma version_group_returns:
  "\<exists>g'. snd ((\<lambda>(base_name, files) g.
       if length files > 1 then
         for_each (\<lambda>file g1.
           for_each (\<lambda>other_file g2.
             case random_choice (version_contexts other_file) g2 of
               Inl e \<Rightarrow> ([], Inl e)
             | Inr (ctx, g3) \<Rightarrow>
                 ([\<lparr>source_file = filename file, target_file = filename other_file,
                    reference_type = ''version_reference'', context_str = ctx\<rparr>],
                  Inr g3))
             (filter (\<lambda>f. filename f \<noteq> filename file) files) g1) files g
       else ([], Inr g)) grp g0) = Inr g'"
  using version_files_return by (cases grp) auto

lemma version_references_return: "\<exists>g'. snd (create_version_references plans g) = Inr g'"
  unfolding create_version_references_def
  by (rule for_each_returns) (rule version_group_returns)

lemma version_edge:
  assumes "p \<in> set plans" "q \<in> set plans" "filename p \<noteq> filename q"
    and "base_name_of (filename p) = base_name_of (filename q)"
  shows "\<exists>ctx \<in> set (version_contexts q).
           \<lparr>source_file = filename p, target_file = filename q,
            reference_type = ''version_reference'', context_str = ctx\<rparr>
           \<in> set (fst (create_version_references plans g))"
proof -
  let ?edge = "\<lambda>file other_file g2.
             case random_choice (version_contexts other_file) g2 of
               Inl e \<Rightarrow> ([], Inl e)
             | Inr (ctx, g3) \<Rightarrow>
                 ([\<lparr>source_file = filename file, target_file = filename other_file,
                    reference_type = ''version_reference'', context_str = ctx\<rparr>],
                  Inr g3)"
  let ?file = "\<lambda>files file g1.
           for_each (?edge file) (filter (\<lambda>f. filename f \<noteq> filename file) files) g1"
  let ?group = "\<lambda>(base_name, files) g.
       if length files > 1 then for_each (?file files) files g else ([], Inr g)"
  from same_group [OF assms(1,2,4)] obtain files where
    grp: "(base_name_of (filename p), files) \<in> set (base_names_of plans)"
    and p: "p \<in> set files" and q: "q \<in> set files"
    by blast
  from assms(3) have "p \<noteq> q" by auto
  with p q have len: "1 < length files" by (rule two_members)
  have "\<exists>g1. set (fst (?group (base_name_of (filename p), files) g1))
          \<subseteq> set (fst (for_each ?group (base_names_of plans) g))"
    by (rule for_each_covers [OF _ grp]) (rule version_group_returns)
  then obtain g1 where
    s1: "set (fst (for_each (?file files) files g1)) \<subseteq> set (fst (create_version_references plans g))"
    using len unfolding create_version_references_def by auto
  have "\<exists>g2. set (fst (?file files p g2)) \<subseteq> set (fst (for_each (?file files) files g1))"
    by (rule for_each_covers [OF _ p]) (rule version_others_return)
  then obtain g2 where
    s2: "set (fst (for_each (?edge p) (filter (\<lambda>f. filename f \<noteq> filename p) files) g2))
          \<subseteq> set (fst (for_each (?file files) files g1))"
    by blast
  have q': "q \<in> set (filter (\<lambda>f. filename f \<noteq> filename p) files)"
    using q assms(3) by simp
  have edge_returns: "\<And>x g0. \<exists>g'. snd (?edge p x g0) = Inr g'"
  proof -
    fix x g0
    from version_edge_body [of x g0] obtain ctx g' where
      "random_choice (version_contexts x) g0 = Inr (ctx, g')" by blast
    then show "\<exists>g'. snd (?edge p x g0) = Inr g'" by simp
  qed
  have "\<exists>g3. set (fst (?edge p q g3))
          \<subseteq> set (fst (for_each (?edge p) (filter (\<lambda>f. filename f \<noteq> filename p) files) g2))"
    by (rule for_each_covers [OF _ q']) (rule edge_returns)
  then obtain g3 where
    s3: "set (fst (?edge p q g3))
          \<subseteq> set (fst (for_each (?edge p) (filter (\<lambda>f. filename f \<noteq> filename p) files) g2))"
    by blast
  from version_edge_body [of q g3] obtain ctx g' where
    c: "random_choice (version_contexts q) g3 = Inr (ctx, g')" "ctx \<in> set (version_contexts q)"
    by blast
  then have "\<lparr>source_file = filename p, target_file = filename q,
            reference_type = ''version_reference'', context_str = ctx\<rparr> \<in> set (fst (?edge p q g3))"
    by simp
  with s1 s2 s3 c(2) show ?thesis by blast
qed

text \<open>
  C9.  The version pass never raises, and for two files of the plan set with different names
  and the same base name (every indicator \<open>_v2\<close>, \<open>_v3\<close>, \<open>_final\<close>, \<open>_draft\<close>, \<open>_copy\<close>,
  \<open>_backup\<close>, \<open>_old\<close> removed, then cut at the first dot) it emits a
  \<open>version_reference\<close> edge in each direction, whatever the random source holds.
\<close>

theorem version_groups_connected:
  assumes "p \<in> set plans" "q \<in> set plans" "filename p \<noteq> filename q"
    and "base_name_of (filename p) = base_name_of (filename q)"
  shows "(\<exists>g'. snd (create_version_references plans g) = Inr g')
       \<and> (\<exists>ctx \<in> set (version_contexts q).
           \<lparr>source_file = filename p, target_file = filename q,
            reference_type = ''version_reference'', context_str = ctx\<rparr>
           \<in> set (fst (create_version_references plans g)))
       \<and> (\<exists>ctx \<in> set (version_contexts p).
           \<lparr>source_file = filename q, target_file = filename p,
            reference_type = ''version_reference'', context_str = ctx\<rparr>
           \<in> set (fst (create_version_references plans g)))"
  using version_references_return [of plans g]
    version_edge [OF assms(1,2,3,4), of g]
    version_edge [OF assms(2,1) assms(3) [symmetric] assms(4) [symmetric], of g]
  by (intro conjI)

theorem version_groups_connected_witness:
  "\<lparr>file_type = ''txt'', size_bytes = 1024, language = ''en'', filename = ''report.txt''\<rparr>
     \<in> set example_plans
   \<and> \<lparr>file_type = ''txt'', size_bytes = 1024, language = ''en'', filename = ''report_v2.txt''\<rparr>
     \<in> set example_plans
   \<and> ''report.txt'' \<noteq> ''report_v2.txt''
   \<and> base_name_of ''report.txt'' = base_name_of ''report_v2.txt''
   \<and> (\<exists>ctx. \<lparr>source_file = ''report.txt'', target_file = ''report_v2.txt'',
            reference_type = ''version_reference'', context_str = ctx\<rparr>
           \<in> set (fst (create_version_references example_plans example_rng)))
   \<and> (\<exists>ctx. \<lparr>source_file = ''report_v2.txt'', target_file = ''report.txt'',
            reference_type = ''version_reference'', context_str = ctx\<rparr>
           \<in> set (fst (create_version_references example_plans example_rng)))"
proof -
  let ?p = "\<lparr>file_type = ''txt'', size_bytes = 1024, language = ''en'', filename = ''report.txt''\<rparr>"
  let ?q = "\<lparr>file_type = ''txt'', size_bytes = 1024, language = ''en'', filename = ''report_v2.txt''\<rparr>"
  have p: "?p \<in> set example_plans" and q: "?q \<in> set example_plans"
    by (simp_all add: example_plans_def)
  have ne: "filename ?p \<noteq> filename ?q"
    by simp
  have b: "base_name_of (filename ?p) = base_name_of (filename ?q)"
    by code_simp
  from version_groups_connected [OF p q ne b, of example_rng] p q ne b show ?thesis
    by (simp add: Bex_def) blast
qed


text \<open>
  C8.  With a non-empty pool of exactly one target file the spreadsheet pass raises
  \<open>ValueError\<close> at its first spreadsheet, before it emits anything, whatever the random
  source holds: \<open>random.randint(2, min(4, 1))\<close> has an empty range.  So do the nine passes
  together on a plan set of one spreadsheet and one document.
\<close>

theorem spreadsheet_pass_raises:
  "create_spreadsheet_references (sheet # sheets) [target] g = ([], Inl ValueError)
   \<and> snd (create_references efs
        [\<lparr>file_type = ''csv'', size_bytes = 4096, language = ''en'', filename = ''data.csv''\<rparr>,
         \<lparr>file_type = ''txt'', size_bytes = 1024, language = ''en'', filename = ''notes.txt''\<rparr>] g)
       = Inl ValueError"
proof
  show "create_spreadsheet_references (sheet # sheets) [target] g = ([], Inl ValueError)"
    by (simp add: create_spreadsheet_references_def sample_between_def randint_def)
next
  let ?sheet = "\<lparr>file_type = ''csv'', size_bytes = 4096, language = ''en'', filename = ''data.csv''\<rparr>"
  let ?doc = "\<lparr>file_type = ''txt'', size_bytes = 1024, language = ''en'', filename = ''notes.txt''\<rparr>"
  let ?plans = "[?sheet, ?doc]"
  have parts: "emails_of ?plans = []" "documents_of ?plans = [?doc]"
      "spreadsheets_of ?plans = [?sheet]" "images_of ?plans = []"
    by (simp_all add: emails_of_def documents_of_def spreadsheets_of_def images_of_def)
  obtain h g1 where h: "random_random g = (h, g1)" by (cases "random_random g")
  have e: "create_email_attachments [] [?doc, ?sheet] g = ([], Inr g)"
    by (simp add: create_email_attachments_def)
  have i: "create_document_image_embeddings [?doc] [] g = ([], Inr g1)"
    using h by (simp add: create_document_image_embeddings_def)
  have d: "create_document_references [?doc] g1 = ([], Inr g1)"
    by (simp add: create_document_references_def)
  have s: "create_spreadsheet_references [?sheet] [?doc] g1 = ([], Inl ValueError)"
    by (simp add: create_spreadsheet_references_def sample_between_def randint_def)
  show "snd (create_references efs ?plans g) = Inl ValueError"
    unfolding create_references_def Let_def parts
    by (simp add: then_pass_def e i d s)
qed


subsection \<open>Password hints\<close>

lemma sublist_middle: "ys = ps @ xs @ ss \<Longrightarrow> sublist xs ys"
  unfolding sublist_def by blast

lemma hint_formats_password:
  assumes "h \<in> set (hint_formats protected_filename pw)"
  shows "sublist pw h"
proof -
  from assms consider "h = ''Note: Archive password for '' @ protected_filename @ '': '' @ pw"
    | "h = ''Backup access code: '' @ pw @ '' (for '' @ protected_filename @ '')''"
    | "h = ''Decryption key: '' @ pw"
    | "h = ''Access credentials - File: '' @ protected_filename @ '', Pass: '' @ pw"
    | "h = ''Security memo: '' @ protected_filename @ '' requires password '' @ [CHR 0x27] @ pw @ [CHR 0x27]"
    unfolding hint_formats_def by fastforce
  then show ?thesis
  proof cases
    case 1
    show ?thesis
      by (rule sublist_middle [where ps = "''Note: Archive password for '' @ protected_filename @ '': ''" and ss = "[]"])
        (simp only: 1 append_assoc append_Nil2)
  next
    case 2
    show ?thesis
      by (rule sublist_middle [where ps = "''Backup access code: ''" and ss = "'' (for '' @ protected_filename @ '')''"])
        (simp only: 2)
  next
    case 3
    show ?thesis
      by (rule sublist_middle [where ps = "''Decryption key: ''" and ss = "[]"])
        (simp only: 3 append_Nil2)
  next
    case 4
    show ?thesis
      by (rule sublist_middle [where ps = "''Access credentials - File: '' @ protected_filename @ '', Pass: ''" and ss = "[]"])
        (simp only: 4 append_assoc append_Nil2)
  next
    case 5
    show ?thesis
      by (rule sublist_middle [where ps = "''Security memo: '' @ protected_filename @ '' requires password '' @ [CHR 0x27]" and ss = "[CHR 0x27]"])
        (simp only: 5 append_assoc)
  qed
qed

lemma hint_formats_filename:
  assumes "h \<in> set (hint_formats protected_filename pw)" "h \<noteq> ''Decryption key: '' @ pw"
  shows "sublist protected_filename h"
proof -
  from assms consider "h = ''Note: Archive password for '' @ protected_filename @ '': '' @ pw"
    | "h = ''Backup access code: '' @ pw @ '' (for '' @ protected_filename @ '')''"
    | "h = ''Access credentials - File: '' @ protected_filename @ '', Pass: '' @ pw"
    | "h = ''Security memo: '' @ protected_filename @ '' requires password '' @ [CHR 0x27] @ pw @ [CHR 0x27]"
    unfolding hint_formats_def by fastforce
  then show ?thesis
  proof cases
    case 1
    show ?thesis
      by (rule sublist_middle [where ps = "''Note: Archive password for ''" and ss = "'': '' @ pw"])
        (simp only: 1)
  next
    case 2
    show ?thesis
      by (rule sublist_middle [where ps = "''Backup access code: '' @ pw @ '' (for ''" and ss = "'')''"])
        (simp only: 2 append_assoc)
  next
    case 3
    show ?thesis
      by (rule sublist_middle [where ps = "''Access credentials - File: ''" and ss = "'', Pass: '' @ pw"])
        (simp only: 3)
  next
    case 4
    show ?thesis
      by (rule sublist_middle [where ps = "''Security memo: ''" and ss = "'' requires password '' @ [CHR 0x27] @ pw @ [CHR 0x27]"])
        (simp only: 4)
  qed
qed

lemma distribute_hints_returns:
  "\<exists>efs' g'. distribute_hints text_files i pws efs g = Inr (efs', g')"
proof (induction pws arbitrary: i efs g)
  case Nil
  show ?case by simp
next
  case (Cons a pws)
  obtain protected_filename pw where a: "a = (protected_filename, pw)" by (cases a)
  have "hint_formats protected_filename pw \<noteq> []" by (simp add: hint_formats_def)
  from random_choice_Inr [OF this, of g] obtain hint g1 where
    c: "random_choice (hint_formats protected_filename pw) g = Inr (hint, g1)" by blast
  show ?case
    using a c Cons.IH by (simp add: Let_def)
qed

lemma hinted_Cons: "hinted pws f f' \<Longrightarrow> hinted (a # pws) f f'"
  by (auto simp: hinted_def)

lemma hinted_head:
  "hint \<in> set (hint_formats protected_filename pw) \<Longrightarrow>
     hinted ((protected_filename, pw) # pws) f (with_hint f hint)"
  by (auto simp: hinted_def)

lemma hinted_subset: "set pws \<subseteq> set pws' \<Longrightarrow> hinted pws f f' \<Longrightarrow> hinted pws' f f'"
  by (fastforce simp: hinted_def)

lemma nth_not_later:
  assumes "distinct xs" "i < length xs"
  shows "xs ! i \<notin> set (drop (Suc i) xs)"
proof
  assume "xs ! i \<in> set (drop (Suc i) xs)"
  then obtain k where k: "k < length xs - Suc i" "drop (Suc i) xs ! k = xs ! i"
    by (auto simp: in_set_conv_nth)
  then have "xs ! (Suc i + k) = xs ! i" by simp
  moreover have "Suc i + k < length xs" using k(1) by simp
  ultimately show False
    using assms by (simp add: nth_eq_iff_index_eq)
qed

lemma distribute_hints_effect:
  assumes "distinct text_files" "\<forall>j \<in> set text_files. j < length efs"
    and "distribute_hints text_files i pws efs g = Inr (efs', g')"
  shows "length efs' = length efs \<and>
     (\<forall>j < length efs. efs' ! j = efs ! j
        \<or> (j \<in> set (drop i text_files) \<and> hinted pws (efs ! j) (efs' ! j)))"
  using assms(2,3)
proof (induction pws arbitrary: i efs g)
  case Nil
  then show ?case by simp
next
  case (Cons a pws)
  obtain protected_filename pw where a: "a = (protected_filename, pw)" by (cases a)
  show ?case
  proof (cases "i < length text_files")
    case False
    with Cons.prems(2) a have r: "distribute_hints text_files (Suc i) pws efs g = Inr (efs', g')"
      by simp
    from Cons.IH [OF Cons.prems(1) r] False show ?thesis by simp
  next
    case True
    let ?j = "text_files ! i"
    have jlt: "?j < length efs" using True Cons.prems(1) by simp
    have "hint_formats protected_filename pw \<noteq> []" by (simp add: hint_formats_def)
    from random_choice_Inr [OF this, of g] obtain hint g1 where
      c: "random_choice (hint_formats protected_filename pw) g = Inr (hint, g1)"
      and hm: "hint \<in> set (hint_formats protected_filename pw)" by blast
    have later: "?j \<notin> set (drop (Suc i) text_files)"
      using assms(1) True by (rule nth_not_later)
    have dropi: "set (drop (Suc i) text_files) \<subseteq> set (drop i text_files)"
        "?j \<in> set (drop i text_files)"
      using True by (simp_all add: Cons_nth_drop_Suc [symmetric] subset_insertI)
    show ?thesis
    proof (cases "file_type (original_plan (efs ! ?j)) = ''txt''")
      case False
      with Cons.prems(2) a True c
      have r: "distribute_hints text_files (Suc i) pws efs g1 = Inr (efs', g')"
        by (simp add: Let_def)
      from Cons.IH [OF Cons.prems(1) r] have len: "length efs' = length efs"
        and ih: "\<And>j. j < length efs \<Longrightarrow> efs' ! j = efs ! j
          \<or> (j \<in> set (drop (Suc i) text_files) \<and> hinted pws (efs ! j) (efs' ! j))"
        by simp_all
      have "\<And>j. j < length efs \<Longrightarrow> efs' ! j = efs ! j
          \<or> (j \<in> set (drop i text_files) \<and> hinted (a # pws) (efs ! j) (efs' ! j))"
        using ih dropi(1) hinted_Cons by blast
      with len show ?thesis by simp
    next
      case is_txt: True
      let ?efs1 = "efs[?j := with_hint (efs ! ?j) hint]"
      from Cons.prems(2) a True c is_txt
      have r: "distribute_hints text_files (Suc i) pws ?efs1 g1 = Inr (efs', g')"
        by (simp add: Let_def with_hint_def)
      have p1: "\<forall>j \<in> set text_files. j < length ?efs1" using Cons.prems(1) by simp
      from Cons.IH [OF p1 r] have len: "length efs' = length efs"
        and ih: "\<And>j. j < length efs \<Longrightarrow> efs' ! j = ?efs1 ! j
          \<or> (j \<in> set (drop (Suc i) text_files) \<and> hinted pws (?efs1 ! j) (efs' ! j))"
        by simp_all
      have "efs' ! j = efs ! j
          \<or> (j \<in> set (drop i text_files) \<and> hinted (a # pws) (efs ! j) (efs' ! j))"
        if j: "j < length efs" for j
      proof (cases "j = ?j")
        case True
        with ih [OF j] later have "efs' ! j = ?efs1 ! j" by blast
        with True jlt have "efs' ! j = with_hint (efs ! j) hint" by simp
        moreover have "hinted (a # pws) (efs ! j) (with_hint (efs ! j) hint)"
          unfolding a using hm by (rule hinted_head)
        ultimately show ?thesis using True dropi(2) by simp
      next
        case False
        then have e: "?efs1 ! j = efs ! j" by simp
        from ih [OF j] show ?thesis
          unfolding e using dropi(1) hinted_Cons by blast
      qed
      with len show ?thesis by simp
    qed
  qed
qed

lemma distribute_password_hints_effect:
  "\<exists>m' g'. distribute_password_hints m g = Inr (m', g')
     \<and> m' = m\<lparr>encoded_files := encoded_files m'\<rparr>
     \<and> length (encoded_files m') = length (encoded_files m)
     \<and> (\<forall>j < length (encoded_files m).
           encoded_files m' ! j = encoded_files m ! j
         \<or> hinted (passwords m) (encoded_files m ! j) (encoded_files m' ! j))"
proof -
  let ?efs = "encoded_files m"
  let ?tf = "filter (\<lambda>j. file_type (original_plan (?efs ! j)) \<in> set [''txt'', ''docx''])
               [0 ..< length ?efs]"
  obtain all_passwords g1 where s: "random_shuffle (passwords m) g = (all_passwords, g1)"
    by (cases "random_shuffle (passwords m) g")
  let ?pws = "take (length ?tf div 2) all_passwords"
  have sub: "set ?pws \<subseteq> set (passwords m)"
    using pick_subset [of "length (passwords m)" "passwords m" g] s set_take_subset [of _ all_passwords]
    by (auto simp: random_shuffle_def)
  obtain efs' g' where d: "distribute_hints ?tf 0 ?pws ?efs g1 = Inr (efs', g')"
    using distribute_hints_returns by blast
  have run: "distribute_password_hints m g = Inr (m\<lparr>encoded_files := efs'\<rparr>, g')"
    using s d by (simp add: distribute_password_hints_def Let_def)
  have tf: "distinct ?tf" "\<forall>j \<in> set ?tf. j < length ?efs"
    by simp_all
  note effect = distribute_hints_effect [OF tf d]
  from effect have len: "length efs' = length ?efs"
    by (rule conjunct1)
  have "efs' ! j = ?efs ! j \<or> hinted (passwords m) (?efs ! j) (efs' ! j)"
    if "j < length ?efs" for j
    using effect that sub hinted_subset by blast
  with run len show ?thesis by simp
qed


subsection \<open>The example run\<close>

lemma draw_run_rng: "draw (run_rng k) = ((if k = 0 then 95 else if k = 31 then 2 else 0), run_rng (k + 1))"
  by (simp add: draw_def run_rng_def)

lemma fake_run_rng: "fake (run_rng k) = (''Reed'', run_rng (k + 1))"
  by (simp add: fake_def run_rng_def)

lemma plan_fields:
  "file_type vault_plan = ''txt''" "filename vault_plan = ''vault.txt''"
  "file_type notes_plan = ''txt''" "filename notes_plan = ''notes.txt''"
  by (simp_all add: vault_plan_def notes_plan_def)

lemma run_e1: "choose_encoding_method ''txt'' (run_rng 0) = Inr (ZIP_PASSWORD, run_rng 1)"
  by (simp add: choose_encoding_method_def random_choices_def random_random_def draw_run_rng methods_def del: One_nat_def)

lemma run_e1b: "choose_encoding_method ''txt'' (run_rng 11) = Inr (NONE, run_rng 12)"
  by (simp add: choose_encoding_method_def random_choices_def random_random_def draw_run_rng methods_def del: One_nat_def)

lemma run_e2: "str_of_nat 10 = ''10''"
  by (simp add: str_of_nat.simps del: One_nat_def)

lemma run_e3: "title ''Reed'' = ''Reed''"
  by (simp add: title_def is_lower_def is_upper_def ascii_lowercase_def ascii_uppercase_def del: One_nat_def)

lemma run_e4: "generate_password ''medium'' (run_rng 1) = Inr (''Reed10!'', run_rng 10)"
  by (simp add: generate_password_def fake_run_rng randint_def draw_run_rng random_choice_def run_e2 run_e3 del: One_nat_def)

lemma run_e5: "lower ''txt'' = ''txt''"
  by (simp add: lower_def to_lower_def ascii_uppercase_def del: One_nat_def)

lemma run_e6: "generate_content example_renderer ds ss is vault_plan g = Inr (''chaff'', g)"
  "generate_content example_renderer ds ss is notes_plan g = Inr (''chaff'', g)"
  by (simp_all add: generate_content_def plan_fields run_e5 supported_types_def example_renderer_def del: One_nat_def)

lemma run_e7: "encode_file example_crypto ''chaff'' ZIP_PASSWORD None (run_rng 1)
    = Inr ((''chaff'', [(''compression'', ''zip''), (''encryption'', ''aes''), (''password'', ''Reed10!'')]), run_rng 11)"
  by (simp add: encode_file_def password_or_generate_def run_e4 draw_run_rng example_crypto_def encode_utf8_def del: One_nat_def)

lemma run_e8: "encode_file example_crypto ''chaff'' NONE None g = Inr ((''chaff'', [(''encoding'', ''none'')]), g)"
  by (simp add: encode_file_def del: One_nat_def)

lemma run_e9: "encode_plan example_crypto example_renderer ds ss is new_manager vault_plan (run_rng 0)
    = Inr (\<lparr>file_references = [], passwords = [(''vault.txt'', ''Reed10!'')], keys = [],
             encoded_files = [vault_encoded]\<rparr>, run_rng 11)"
  by (simp add: encode_plan_def plan_fields run_e1 run_e6 run_e7 new_manager_def vault_encoded_def truthy_def format_opt_def del: One_nat_def)

lemma run_e10: "encode_plan example_crypto example_renderer ds ss is
      \<lparr>file_references = [], passwords = [(''vault.txt'', ''Reed10!'')], keys = [],
             encoded_files = [vault_encoded]\<rparr> notes_plan (run_rng 11)
    = Inr (\<lparr>file_references = [], passwords = [(''vault.txt'', ''Reed10!'')], keys = [],
             encoded_files = [vault_encoded, notes_encoded]\<rparr>, run_rng 12)"
  by (simp add: encode_plan_def plan_fields run_e1b run_e6 run_e8 notes_encoded_def truthy_def format_opt_def del: One_nat_def)

lemma run_e11: "encode_plans example_crypto example_renderer ds ss is new_manager [vault_plan, notes_plan] (run_rng 0)
    = Inr (\<lparr>file_references = [], passwords = [(''vault.txt'', ''Reed10!'')], keys = [],
             encoded_files = [vault_encoded, notes_encoded]\<rparr>, run_rng 12)"
  by (simp add: run_e9 run_e10 del: One_nat_def)

lemma encoded_fields:
  "original_plan vault_encoded = vault_plan" "password vault_encoded = Some ''Reed10!''"
  "original_plan notes_encoded = notes_plan" "password notes_encoded = None"
  "encoding_method vault_encoded = ZIP_PASSWORD" "encoding_method notes_encoded = NONE"
  "encoded_content vault_encoded = ''chaff''" "encoded_content notes_encoded = ''chaff''"
  by (simp_all add: vault_encoded_def notes_encoded_def)

lemma run_parts:
  "emails_of [vault_plan, notes_plan] = []"
  "documents_of [vault_plan, notes_plan] = [vault_plan, notes_plan]"
  "spreadsheets_of [vault_plan, notes_plan] = []"
  "images_of [vault_plan, notes_plan] = []"
  by (simp_all add: emails_of_def documents_of_def spreadsheets_of_def images_of_def plan_fields)

lemma run_b1: "create_email_attachments [] others g = ([], Inr g)"
  by (simp add: create_email_attachments_def)

lemma run_b2: "create_document_image_embeddings [vault_plan, notes_plan] [] (run_rng 12) = ([], Inr (run_rng 14))"
  by (simp add: create_document_image_embeddings_def random_random_def draw_run_rng del: One_nat_def)

lemma pick_one: "pick 1 [p] g = ([p], snd (draw g))"
  by (simp add: split_beta)

lemma run_s1:
  "sample_between 1 3 [p] (run_rng 14) = Inr ([p], run_rng 16)"
  "sample_between 1 3 [p] (run_rng 17) = Inr ([p], run_rng 19)"
  "sample_between 1 2 [p] (run_rng 26) = Inr ([p], run_rng 28)"
  "sample_between 1 2 [p] (run_rng 28) = Inr ([p], run_rng 30)"
  by (simp_all add: sample_between_def randint_def draw_run_rng random_sample_def pick_one
      del: One_nat_def)

lemma run_b3: "create_document_references [vault_plan, notes_plan] (run_rng 14)
    = ([doc_ref ''vault.txt'' ''notes.txt'', doc_ref ''notes.txt'' ''vault.txt''], Inr (run_rng 20))"
  by (simp add: create_document_references_def plan_fields run_s1 random_choice_def
      document_reference_types_def draw_run_rng doc_ref_def del: One_nat_def)

lemma run_b4: "create_spreadsheet_references [] others g = ([], Inr g)"
  by (simp add: create_spreadsheet_references_def)

lemma run_b5: "create_password_references [vault_encoded, notes_encoded] [vault_plan, notes_plan] (run_rng 20)
    = ([password_ref], Inr (run_rng 22))"
  by (simp add: create_password_references_def encoded_fields truthy_def plan_fields
      random_random_def draw_run_rng random_choice_def format_opt_def password_ref_def del: One_nat_def)

lemma run_b6: "create_backup_references [vault_plan, notes_plan] [] g = ([], Inr g)"
  by (simp add: create_backup_references_def)

lemma run_b7: "create_data_references [] docs g = ([], Inr g)"
  by (simp add: create_data_references_def)

lemma run_b8a: "assign_projects [vault_plan, notes_plan] [] (run_rng 22)
    = Inr ([(''Alpha'', [vault_plan, notes_plan])], run_rng 26)"
  by (simp add: random_random_def draw_run_rng random_choice_def project_names_def del: One_nat_def)

lemma run_b8: "create_project_references [vault_plan, notes_plan] (run_rng 22)
    = ([project_ref ''vault.txt'' ''notes.txt'', project_ref ''notes.txt'' ''vault.txt''], Inr (run_rng 30))"
  by (simp add: create_project_references_def run_b8a plan_fields run_s1 project_ref_def
      del: One_nat_def assign_projects.simps)

lemma run_b9a: "base_name_of ''vault.txt'' = ''vault''" "base_name_of ''notes.txt'' = ''notes''"
  by (simp_all add: base_name_of_def version_indicators_def)

lemma run_b9: "create_version_references [vault_plan, notes_plan] g = ([], Inr g)"
  by (simp add: create_version_references_def base_names_of_def plan_fields run_b9a)

lemma run_b10: "create_references [vault_encoded, notes_encoded] [vault_plan, notes_plan] (run_rng 12)
    = ([doc_ref ''vault.txt'' ''notes.txt'', doc_ref ''notes.txt'' ''vault.txt'', password_ref,
        project_ref ''vault.txt'' ''notes.txt'', project_ref ''notes.txt'' ''vault.txt''], Inr (run_rng 30))"
  by (simp add: create_references_def run_parts then_pass_def run_b1 run_b2 run_b3 run_b4 run_b5 run_b6 run_b7 run_b8 run_b9)

lemma run_c1: "update_each (update_email T run_references) [vault_encoded, notes_encoded] g
    = Inr ([vault_encoded, notes_encoded], g)"
  by (simp add: update_email_def encoded_fields plan_fields)

lemma ascii_decode: "decode_utf8_ignore ''chaff'' = ''chaff''"
  by (simp add: decode_utf8_ignore_def)

lemma run_c2: "update_document run_references vault_encoded = vault_encoded\<lparr>encoded_content := vault_rewritten\<rparr>"
  by (simp add: update_document_def encoded_fields plan_fields references_from_def run_references_def
      doc_ref_def project_ref_def password_ref_def ascii_decode encode_utf8_def vault_rewritten_def)

lemma run_c3: "update_document run_references notes_encoded = notes_encoded\<lparr>encoded_content := notes_rewritten\<rparr>"
  by (simp add: update_document_def encoded_fields plan_fields references_from_def run_references_def
      doc_ref_def project_ref_def password_ref_def ascii_decode encode_utf8_def notes_rewritten_def)

lemma run_c4: "update_spreadsheet refs (vault_encoded\<lparr>encoded_content := c\<rparr>) = vault_encoded\<lparr>encoded_content := c\<rparr>"
  "update_spreadsheet refs (notes_encoded\<lparr>encoded_content := c\<rparr>) = notes_encoded\<lparr>encoded_content := c\<rparr>"
  by (simp_all add: update_spreadsheet_def encoded_fields plan_fields)

lemma run_d0: "decode_utf8_ignore vault_rewritten = vault_rewritten"
  by (simp add: decode_utf8_ignore_def vault_rewritten_def)

lemma run_d1: "distribute_password_hints
     \<lparr>file_references = run_references, passwords = [(''vault.txt'', ''Reed10!'')], keys = [],
      encoded_files = [vault_encoded\<lparr>encoded_content := vault_rewritten\<rparr>,
                       notes_encoded\<lparr>encoded_content := notes_rewritten\<rparr>]\<rparr> (run_rng 30)
   = Inr (\<lparr>file_references = run_references, passwords = [(''vault.txt'', ''Reed10!'')], keys = [],
      encoded_files = [vault_encoded\<lparr>encoded_content :=
                          vault_rewritten @ backslash_n @ backslash_n @ ''Decryption key: Reed10!'' @ backslash_n\<rparr>,
                       notes_encoded\<lparr>encoded_content := notes_rewritten\<rparr>]\<rparr>, run_rng 32)"
  by (simp add: distribute_password_hints_def encoded_fields plan_fields random_shuffle_def draw_run_rng
      random_choice_def hint_formats_def run_d0 encode_utf8_def del: One_nat_def)

lemma example_run: "create_file_network example_crypto example_renderer new_manager [vault_plan, notes_plan] (run_rng 0)
   = Inr (([vault_encoded\<lparr>encoded_content :=
                          vault_rewritten @ backslash_n @ backslash_n @ ''Decryption key: Reed10!'' @ backslash_n\<rparr>,
            notes_encoded\<lparr>encoded_content := notes_rewritten\<rparr>],
           \<lparr>file_references = run_references, passwords = [(''vault.txt'', ''Reed10!'')], keys = [],
      encoded_files = [vault_encoded\<lparr>encoded_content :=
                          vault_rewritten @ backslash_n @ backslash_n @ ''Decryption key: Reed10!'' @ backslash_n\<rparr>,
                       notes_encoded\<lparr>encoded_content := notes_rewritten\<rparr>]\<rparr>), run_rng 32)"
  by (simp add: create_file_network_def run_e11 run_b10 run_c1 run_c2 run_c3 run_c4 run_d1 run_references_def [symmetric]
      del: encode_plans.simps update_each.simps)

subsection \<open>Hints and rewriting\<close>

text \<open>
  C7 (as amended).  The password distributor never raises and keeps every file but for the
  content of carriers.  The content of a carrier becomes its decoded text followed by one hint:
  one of the five templates filled with a (file name, password) pair of the registry.
  Every such hint contains the password verbatim, and every template except
  \<open>Decryption key: <password>\<close> also contains the name of the protected file.
\<close>

theorem password_hints_contain_password:
  "\<exists>m' g'. distribute_password_hints m g = Inr (m', g')
     \<and> length (encoded_files m') = length (encoded_files m)
     \<and> (\<forall>j < length (encoded_files m).
           encoded_files m' ! j = encoded_files m ! j
         \<or> (\<exists>(protected_filename, pw) \<in> set (passwords m).
              \<exists>hint \<in> set (hint_formats protected_filename pw).
                encoded_files m' ! j = with_hint (encoded_files m ! j) hint
                \<and> sublist pw hint
                \<and> (hint \<noteq> ''Decryption key: '' @ pw \<longrightarrow> sublist protected_filename hint)))"
proof -
  from distribute_password_hints_effect [of m g] obtain m' g' where
    run: "distribute_password_hints m g = Inr (m', g')"
    and len: "length (encoded_files m') = length (encoded_files m)"
    and eff: "\<And>j. j < length (encoded_files m) \<Longrightarrow>
           encoded_files m' ! j = encoded_files m ! j
         \<or> hinted (passwords m) (encoded_files m ! j) (encoded_files m' ! j)"
    by blast
  have "encoded_files m' ! j = encoded_files m ! j
         \<or> (\<exists>(protected_filename, pw) \<in> set (passwords m).
              \<exists>hint \<in> set (hint_formats protected_filename pw).
                encoded_files m' ! j = with_hint (encoded_files m ! j) hint
                \<and> sublist pw hint
                \<and> (hint \<noteq> ''Decryption key: '' @ pw \<longrightarrow> sublist protected_filename hint))"
    if j: "j < length (encoded_files m)" for j
  proof (cases "encoded_files m' ! j = encoded_files m ! j")
    case True
    then show ?thesis by simp
  next
    case False
    with eff [OF j] have "hinted (passwords m) (encoded_files m ! j) (encoded_files m' ! j)" by simp
    then obtain protected_filename pw hint where
      p: "(protected_filename, pw) \<in> set (passwords m)"
      and h: "hint \<in> set (hint_formats protected_filename pw)"
      and e: "encoded_files m' ! j = with_hint (encoded_files m ! j) hint"
      by (auto simp: hinted_def)
    from hint_formats_password [OF h] hint_formats_filename [OF h] p h e
    show ?thesis by blast
  qed
  with run len show ?thesis by blast
qed

lemma hints_run:
  "distribute_password_hints rewritten_manager (run_rng 30)
   = Inr (rewritten_manager\<lparr>encoded_files :=
            [with_hint (vault_encoded\<lparr>encoded_content := vault_rewritten\<rparr>) ''Decryption key: Reed10!'',
             notes_encoded\<lparr>encoded_content := notes_rewritten\<rparr>]\<rparr>, run_rng 32)"
  by (simp add: rewritten_manager_def run_d1 with_hint_def run_d0 encode_utf8_def)

theorem password_hints_contain_password_witness:
  "\<exists>m' g'. distribute_password_hints rewritten_manager (run_rng 30) = Inr (m', g')
     \<and> (\<exists>(protected_filename, pw) \<in> set (passwords rewritten_manager).
          \<exists>hint \<in> set (hint_formats protected_filename pw).
            encoded_files m' ! 0 = with_hint (encoded_files rewritten_manager ! 0) hint
            \<and> sublist pw hint)"
proof -
  from password_hints_contain_password [of rewritten_manager "run_rng 30"] obtain m' g' where
    run: "distribute_password_hints rewritten_manager (run_rng 30) = Inr (m', g')"
    and eff: "\<forall>j < length (encoded_files rewritten_manager).
           encoded_files m' ! j = encoded_files rewritten_manager ! j
         \<or> (\<exists>(protected_filename, pw) \<in> set (passwords rewritten_manager).
              \<exists>hint \<in> set (hint_formats protected_filename pw).
                encoded_files m' ! j = with_hint (encoded_files rewritten_manager ! j) hint
                \<and> sublist pw hint
                \<and> (hint \<noteq> ''Decryption key: '' @ pw \<longrightarrow> sublist protected_filename hint))"
    by blast
  have lt: "0 < length (encoded_files rewritten_manager)"
    by (simp add: rewritten_manager_def)
  from run hints_run have "m' = rewritten_manager\<lparr>encoded_files :=
            [with_hint (vault_encoded\<lparr>encoded_content := vault_rewritten\<rparr>) ''Decryption key: Reed10!'',
             notes_encoded\<lparr>encoded_content := notes_rewritten\<rparr>]\<rparr>"
    by simp
  then have m': "encoded_files m' ! 0
      = with_hint (vault_encoded\<lparr>encoded_content := vault_rewritten\<rparr>) ''Decryption key: Reed10!''"
    by simp
  have "encoded_files m' ! 0 \<noteq> encoded_files rewritten_manager ! 0"
    unfolding m' by (simp add: rewritten_manager_def with_hint_def encode_utf8_def backslash_n_def
        vault_encoded_def run_d0)
  with eff lt have "\<exists>(protected_filename, pw) \<in> set (passwords rewritten_manager).
              \<exists>hint \<in> set (hint_formats protected_filename pw).
                encoded_files m' ! 0 = with_hint (encoded_files rewritten_manager ! 0) hint
                \<and> sublist pw hint"
    by blast
  with run show ?thesis by blast
qed

text \<open>
  C7 (as stated) fails.  In the state that the example run reaches before the hints are
  distributed, the registry holds the password of \<open>vault.txt\<close> only; the distributor appends
  the hint \<open>Decryption key: Reed10!\<close>, which does not contain the name \<open>vault.txt\<close>, and it
  appends it to the first text file, which is \<open>vault.txt\<close> itself.
\<close>

theorem hint_without_file_name:
  "distribute_password_hints rewritten_manager (run_rng 30)
     = Inr (rewritten_manager\<lparr>encoded_files :=
              [with_hint (encoded_files rewritten_manager ! 0) ''Decryption key: Reed10!'',
               encoded_files rewritten_manager ! 1]\<rparr>, run_rng 32)
   \<and> passwords rewritten_manager = [(''vault.txt'', ''Reed10!'')]
   \<and> filename (original_plan (encoded_files rewritten_manager ! 0)) = ''vault.txt''
   \<and> \<not> sublist ''vault.txt'' ''Decryption key: Reed10!''"
proof -
  have "\<not> sublist ''vault.txt'' ''Decryption key: Reed10!''"
    by code_simp
  moreover have "encoded_files rewritten_manager ! 0 = vault_encoded\<lparr>encoded_content := vault_rewritten\<rparr>"
      "encoded_files rewritten_manager ! 1 = notes_encoded\<lparr>encoded_content := notes_rewritten\<rparr>"
      "passwords rewritten_manager = [(''vault.txt'', ''Reed10!'')]"
    by (simp_all add: rewritten_manager_def)
  moreover have "filename (original_plan (vault_encoded\<lparr>encoded_content := vault_rewritten\<rparr>)) = ''vault.txt''"
    by (simp add: encoded_fields plan_fields)
  ultimately show ?thesis
    using hints_run by simp
qed

text \<open>
  C1.  In the example run \<open>vault.txt\<close> is encoded with \<open>ZIP_PASSWORD\<close>.  After the encoding
  loop its content is the archive; the network that \<open>create_file_network\<close> returns holds
  the same file with the same method, and its content is the decoded archive followed by a
  \<open>REFERENCED FILES\<close> section and a password hint.
\<close>

theorem rewriting_changes_encoded_content:
  "\<exists>m1 g1 efs m g.
     encode_plans example_crypto example_renderer (documents_of [vault_plan, notes_plan])
       (spreadsheets_of [vault_plan, notes_plan]) (images_of [vault_plan, notes_plan])
       new_manager [vault_plan, notes_plan] (run_rng 0) = Inr (m1, g1)
     \<and> create_file_network example_crypto example_renderer new_manager [vault_plan, notes_plan] (run_rng 0)
         = Inr ((efs, m), g)
     \<and> encoding_method (encoded_files m1 ! 0) = ZIP_PASSWORD
     \<and> encoded_content (encoded_files m1 ! 0) = ''chaff''
     \<and> original_plan (efs ! 0) = original_plan (encoded_files m1 ! 0)
     \<and> encoding_method (efs ! 0) = ZIP_PASSWORD
     \<and> encoded_content (efs ! 0)
         = ''chaff'' @ ''\<newline>\<newline>REFERENCED FILES:\<newline>- See related document: notes.txt\<newline>- Project Alpha file: notes.txt\<newline>''
           @ backslash_n @ backslash_n @ ''Decryption key: Reed10!'' @ backslash_n
     \<and> encoded_content (efs ! 0) \<noteq> encoded_content (encoded_files m1 ! 0)"
proof (intro exI conjI)
  show "encode_plans example_crypto example_renderer (documents_of [vault_plan, notes_plan])
       (spreadsheets_of [vault_plan, notes_plan]) (images_of [vault_plan, notes_plan])
       new_manager [vault_plan, notes_plan] (run_rng 0)
      = Inr (\<lparr>file_references = [], passwords = [(''vault.txt'', ''Reed10!'')], keys = [],
             encoded_files = [vault_encoded, notes_encoded]\<rparr>, run_rng 12)"
    by (rule run_e11)
  show "create_file_network example_crypto example_renderer new_manager [vault_plan, notes_plan] (run_rng 0)
   = Inr (([vault_encoded\<lparr>encoded_content :=
                          vault_rewritten @ backslash_n @ backslash_n @ ''Decryption key: Reed10!'' @ backslash_n\<rparr>,
            notes_encoded\<lparr>encoded_content := notes_rewritten\<rparr>],
           \<lparr>file_references = run_references, passwords = [(''vault.txt'', ''Reed10!'')], keys = [],
      encoded_files = [vault_encoded\<lparr>encoded_content :=
                          vault_rewritten @ backslash_n @ backslash_n @ ''Decryption key: Reed10!'' @ backslash_n\<rparr>,
                       notes_encoded\<lparr>encoded_content := notes_rewritten\<rparr>]\<rparr>), run_rng 32)"
    by (rule example_run)
qed (simp_all add: encoded_fields vault_rewritten_def backslash_n_def)

end
